theory Spec2Isabelle
  imports Main "HOL-Library.Word" "HOL-Library.Sublist"
begin

section \<open>Shared vocabulary\<close>

text \<open>
  The development embeds \<^verbatim>\<open>min-image/runtimes/python/server_combined.py\<close>.
  File descriptors and process ids are numbers; the exceptions the source can raise at
  the places modelled here are values of \<open>error\<close>, and a computation that may raise
  returns a sum with the error on the left. \<open>BaseException\<close> stands for an exception
  that is not an instance of \<^verbatim>\<open>Exception\<close> (\<^verbatim>\<open>SystemExit\<close>, \<^verbatim>\<open>KeyboardInterrupt\<close>),
  which no \<^verbatim>\<open>except Exception\<close> clause catches. Assertions are taken to be enabled,
  as they are unless the interpreter is started with \<^verbatim>\<open>-O\<close>.
\<close>

type_synonym fd = nat

datatype error =
  IndexError | ValueError | AssertionError | OSError | StructError | AttributeError
  | TypeError | ImportError | BaseException

section \<open>The cache loop\<close>

subsection \<open>Splitting the control line\<close>

text \<open>
  \<^verbatim>\<open>ns.fdlisten(FS_PATH).split()\<close> splits at runs of whitespace and yields no empty
  token. The whitespace characters are those of Python's \<^verbatim>\<open>str.isspace\<close> among the
  code points below 256.
\<close>

definition is_space :: "char \<Rightarrow> bool" where
  "is_space c = (of_char c \<in> set [9, 10, 11, 12, 13, 28, 29, 30, 31, 32, 133, 160 :: nat])"

fun split_acc :: "string \<Rightarrow> string \<Rightarrow> string list" where
  "split_acc cur [] = (if cur = [] then [] else [cur])"
| "split_acc cur (c # cs) =
     (if is_space c
      then (if cur = [] then split_acc [] cs else cur # split_acc [] cs)
      else split_acc (cur @ [c]) cs)"

definition split_ws :: "string \<Rightarrow> string list" where
  "split_ws s = split_acc [] s"

subsection \<open>State of one process inside \<^verbatim>\<open>cache_loop\<close>\<close>

text \<open>
  \<open>cl_r\<close>, \<open>cl_signal\<close> and \<open>cl_count\<close> are the locals \<^verbatim>\<open>r\<close>, \<^verbatim>\<open>signal\<close> and
  \<^verbatim>\<open>count\<close>. \<open>cl_imported\<close> lists the names that \<^verbatim>\<open>globals()[mod] = ...\<close> has bound,
  in order; \<open>cl_out\<close> lists the lines printed, \<open>cl_redirects\<close> and \<open>cl_resets\<close> count
  the calls of \<^verbatim>\<open>redirect()\<close> and \<^verbatim>\<open>ns.reset()\<close>. A step of the loop either goes
  through and gives the next state, or raises: then it gives the exception and the
  state at that moment.
\<close>

record cache_state =
  cl_r :: int
  cl_signal :: string
  cl_count :: nat
  cl_imported :: "string list"
  cl_out :: "string list"
  cl_redirects :: nat
  cl_resets :: nat

type_synonym step = "(error \<times> cache_state) + cache_state"

definition and_then :: "step \<Rightarrow> (cache_state \<Rightarrow> step) \<Rightarrow> step" where
  "and_then r f = (case r of Inl e \<Rightarrow> Inl e | Inr s \<Rightarrow> f s)"

subsection \<open>Names that an imported module can take over\<close>

text \<open>
  \<^verbatim>\<open>globals()[mod] = importlib.import_module(mod)\<close> binds the module object to the
  global name \<^verbatim>\<open>mod\<close>, whatever that name is. The loop itself looks up \<^verbatim>\<open>print\<close>,
  \<^verbatim>\<open>flush\<close>, \<^verbatim>\<open>redirect\<close>, \<^verbatim>\<open>globals\<close> and \<^verbatim>\<open>FS_PATH\<close>, and \<^verbatim>\<open>redirect\<close> looks up
  \<^verbatim>\<open>open\<close>, \<^verbatim>\<open>STDOUT_PATH\<close> and \<^verbatim>\<open>STDERR_PATH\<close>, in that same namespace. Once such a
  name is bound to a module, calling it, or passing it where a path is expected, raises
  \<^verbatim>\<open>TypeError\<close>. (Binding \<^verbatim>\<open>sys\<close> or \<^verbatim>\<open>importlib\<close> changes nothing: the import gives the
  module the name already denotes. \<^verbatim>\<open>ns\<close>, \<^verbatim>\<open>signal\<close>, \<^verbatim>\<open>mods\<close> are locals of
  \<^verbatim>\<open>cache_loop\<close>.)
\<close>

definition bound :: "string \<Rightarrow> cache_state \<Rightarrow> bool" where
  "bound name s = (name \<in> set (cl_imported s))"

definition emit :: "string \<Rightarrow> cache_state \<Rightarrow> cache_state" where
  "emit line s = s\<lparr>cl_out := cl_out s @ [line]\<rparr>"

text \<open>\<^verbatim>\<open>print(line)\<close>, \<^verbatim>\<open>flush()\<close> and \<^verbatim>\<open>redirect()\<close>.\<close>

definition py_print :: "string \<Rightarrow> cache_state \<Rightarrow> step" where
  "py_print line s = (if bound ''print'' s then Inl (TypeError, s) else Inr (emit line s))"

definition flush :: "cache_state \<Rightarrow> step" where
  "flush s = (if bound ''flush'' s then Inl (TypeError, s) else Inr s)"

definition redirect :: "cache_state \<Rightarrow> step" where
  "redirect s =
     (if bound ''redirect'' s \<or> bound ''open'' s \<or> bound ''STDOUT_PATH'' s
         \<or> bound ''STDERR_PATH'' s
      then Inl (TypeError, s)
      else Inr (s\<lparr>cl_redirects := Suc (cl_redirects s)\<rparr>))"

subsection \<open>The import step\<close>

text \<open>
  The importer stands for \<^verbatim>\<open>importlib.import_module\<close>: the module loads, or the import
  raises an \<^verbatim>\<open>Exception\<close> whose text is given, or it raises an exception that is not an
  \<^verbatim>\<open>Exception\<close> (a module whose top level calls \<^verbatim>\<open>sys.exit()\<close>, say).
\<close>

datatype import_result = Loaded | Import_error string | Import_abort

type_synonym importer = "string \<Rightarrow> import_result"

text \<open>The text of the \<^verbatim>\<open>TypeError\<close> that calling a module object raises.\<close>

definition not_callable :: string where
  "not_callable = [CHR 0x27] @ ''module'' @ [CHR 0x27] @ '' object is not callable''"

definition failed_line :: "string \<Rightarrow> string \<Rightarrow> string" where
  "failed_line m err = ''failed to import '' @ m @ '': '' @ err"

text \<open>
  The \<^verbatim>\<open>try\<close> statement for one module. The import is evaluated first, then
  \<^verbatim>\<open>globals()\<close> is called; \<^verbatim>\<open>except Exception\<close> catches what either raises when it is
  an \<^verbatim>\<open>Exception\<close> and prints the failure line, and lets anything else through.
\<close>

definition import_one :: "importer \<Rightarrow> string \<Rightarrow> cache_state \<Rightarrow> step" where
  "import_one imp m s =
     (case imp m of
        Import_abort \<Rightarrow> Inl (BaseException, s)
      | Import_error err \<Rightarrow> py_print (failed_line m err) s
      | Loaded \<Rightarrow>
          if bound ''globals'' s then py_print (failed_line m not_callable) s
          else Inr (s\<lparr>cl_imported := cl_imported s @ [m]\<rparr>))"

fun import_mods :: "importer \<Rightarrow> string list \<Rightarrow> cache_state \<Rightarrow> step" where
  "import_mods imp [] s = Inr s"
| "import_mods imp (m # ms) s =
     (case py_print (''importing: '' @ m) s of
        Inl f \<Rightarrow> Inl f
      | Inr s1 \<Rightarrow>
          (case import_one imp m s1 of
             Inl f \<Rightarrow> Inl f
           | Inr s2 \<Rightarrow> import_mods imp ms s2))"

text \<open>
  The block under \<^verbatim>\<open>if ret_val == 0\<close>: redirect, import every module, print the signal,
  flush.
\<close>

definition child_block :: "importer \<Rightarrow> string list \<Rightarrow> cache_state \<Rightarrow> step" where
  "child_block imp mods s =
     and_then (and_then (and_then (redirect s) (import_mods imp mods))
       (\<lambda>s2. py_print (''signal: '' @ cl_signal s2) s2)) flush"

subsection \<open>The loop\<close>

text \<open>
  A request is what one iteration reads from outside: the line \<^verbatim>\<open>ns.fdlisten\<close> returns
  and the value \<^verbatim>\<open>ns.forkenter()\<close> returns in the process followed. The loop consumes
  the requests in order; with none left the process is blocked in \<^verbatim>\<open>ns.fdlisten\<close>.
\<close>

type_synonym request = "string \<times> int"

datatype cache_outcome =
    Serving cache_state
  | Listening cache_state
  | Crashed error cache_state

text \<open>
  The body once the line is split into \<^verbatim>\<open>mods\<close> and \<^verbatim>\<open>signal\<close>: from the assignment of
  \<^verbatim>\<open>signal\<close> to \<^verbatim>\<open>count += 1\<close>.
\<close>

definition after_parse :: "importer \<Rightarrow> string list \<Rightarrow> string \<Rightarrow> int \<Rightarrow> cache_state \<Rightarrow> step" where
  "after_parse imp mods sig ret_val s =
     (let s1 = s\<lparr>cl_signal := sig\<rparr> in
      and_then
        (and_then
          (and_then (if ret_val = 0 then child_block imp mods s1 else Inr s1) (py_print []))
          flush)
        (\<lambda>s3. Inr (s3\<lparr>cl_count := Suc (cl_count s3)\<rparr>)))"

text \<open>
  One pass through the body, from \<^verbatim>\<open>.split()\<close> on: \<^verbatim>\<open>data[:-1]\<close> are the modules,
  \<^verbatim>\<open>data[-1]\<close> is the signal and raises \<^verbatim>\<open>IndexError\<close> on the empty list.
\<close>

definition loop_body :: "importer \<Rightarrow> request \<Rightarrow> cache_state \<Rightarrow> step" where
  "loop_body imp rq s =
     (let data = split_ws (fst rq); ret_val = snd rq in
      if data = [] then Inl (IndexError, s)
      else after_parse imp (butlast data) (last data) ret_val s)"

text \<open>
  The top of an iteration, up to the call of \<^verbatim>\<open>ns.fdlisten(FS_PATH)\<close> and the flush
  after it. \<open>loop_head\<close> is what it does to the state: the \<^verbatim>\<open>RESET\<close> block and the
  \<^verbatim>\<open>LISTENING\<close> line. \<open>head_step\<close> adds where it raises: at the first \<^verbatim>\<open>print\<close> when
  that name is taken over, at the first \<^verbatim>\<open>flush()\<close> after it, or at the call with
  \<^verbatim>\<open>FS_PATH\<close> (\<^verbatim>\<open>ns.fdlisten\<close>, a native function outside this source, is taken to
  reject an argument that is not a path).
\<close>

definition loop_head :: "cache_state \<Rightarrow> cache_state" where
  "loop_head s =
     emit ''LISTENING''
       (if cl_r s = 0 then (emit ''RESET'' s)\<lparr>cl_resets := Suc (cl_resets s)\<rparr> else s)"

definition head_step :: "cache_state \<Rightarrow> step" where
  "head_step s =
     (if bound ''print'' s then Inl (TypeError, s)
      else if bound ''flush'' s
        then Inl (TypeError, emit (if cl_r s = 0 then ''RESET'' else ''LISTENING'') s)
      else if bound ''FS_PATH'' s then Inl (TypeError, loop_head s)
      else Inr (loop_head s))"

text \<open>What follows the loop: the \<^verbatim>\<open>SERVING HANDLERS\<close> line and the hand-over.\<close>

definition serve :: "cache_state \<Rightarrow> cache_outcome" where
  "serve s =
     (case and_then (py_print ''SERVING HANDLERS'' s) flush of
        Inl (e, s') \<Rightarrow> Crashed e s'
      | Inr s' \<Rightarrow> Serving s')"

fun cache_loop_from :: "importer \<Rightarrow> request list \<Rightarrow> cache_state \<Rightarrow> cache_outcome" where
  "cache_loop_from imp [] s =
     (if cl_r s \<noteq> 0 \<or> cl_signal s = ''cache''
      then (case head_step s of
              Inl (e, s') \<Rightarrow> Crashed e s'
            | Inr s' \<Rightarrow> Listening s')
      else serve s)"
| "cache_loop_from imp (rq # rqs) s =
     (if cl_r s \<noteq> 0 \<or> cl_signal s = ''cache''
      then (case head_step s of
              Inl (e, s') \<Rightarrow> Crashed e s'
            | Inr s1 \<Rightarrow>
                (case loop_body imp rq s1 of
                   Inl (e, s') \<Rightarrow> Crashed e s'
                 | Inr s' \<Rightarrow> cache_loop_from imp rqs s'))
      else serve s)"

definition cache_init :: cache_state where
  "cache_init =
     \<lparr>cl_r = - 1, cl_signal = ''cache'', cl_count = 0, cl_imported = [],
      cl_out = [], cl_redirects = 0, cl_resets = 0\<rparr>"

definition cache_loop :: "importer \<Rightarrow> request list \<Rightarrow> cache_outcome" where
  "cache_loop imp rqs = cache_loop_from imp rqs cache_init"

subsection \<open>What the import step is expected to do\<close>

text \<open>
  What the import step is expected to print for a module list, in the words of the
  specification: an \<^verbatim>\<open>importing\<close> line for every module, in order, followed by a
  failure line exactly when the import of that module raises an \<^verbatim>\<open>Exception\<close>.
\<close>

fun import_log :: "importer \<Rightarrow> string list \<Rightarrow> string list" where
  "import_log imp [] = []"
| "import_log imp (m # ms) =
     (''importing: '' @ m) #
     (case imp m of Import_error err \<Rightarrow> [failed_line m err] | _ \<Rightarrow> []) @
     import_log imp ms"

text \<open>The global names that the block under \<^verbatim>\<open>if ret_val == 0\<close> looks up.\<close>

definition child_names :: "string list" where
  "child_names =
     [''redirect'', ''open'', ''STDOUT_PATH'', ''STDERR_PATH'', ''print'', ''globals'', ''flush'']"

text \<open>
  Three importers: every module loads; every module loads but \<^verbatim>\<open>missing_b\<close>, which is
  not found (\<^verbatim>\<open>ModuleNotFoundError\<close>, with Python's text for it); every module loads but
  \<^verbatim>\<open>missing_b\<close>, whose import raises \<^verbatim>\<open>SystemExit\<close>.
\<close>

definition imp_all :: importer where
  "imp_all m = Loaded"

definition imp_example :: importer where
  "imp_example m =
     (if m = ''missing_b''
      then Import_error (''No module named '' @ [CHR 0x27] @ ''missing_b'' @ [CHR 0x27])
      else Loaded)"

definition imp_exits :: importer where
  "imp_exits m = (if m = ''missing_b'' then Import_abort else Loaded)"

section \<open>The fork server and the sandbox bootstrap\<close>

subsection \<open>Processes and system calls\<close>

text \<open>
  A process is followed through the system calls it makes. \<open>open_fds\<close> is its set of
  open descriptors, \<open>file_sock\<close> the global \<^verbatim>\<open>file_sock\<close> (\<open>None\<close> for Python's
  \<^verbatim>\<open>None\<close>), and \<open>trace\<close> the calls made so far, oldest first. The prints that
  format a number (the descriptor a server starts on, the cgroup descriptor joined) are
  left out of the trace. \<open>Exec code\<close> marks the call \<^verbatim>\<open>exec(code)\<close>, \<open>Import_ol\<close> the
  statement \<^verbatim>\<open>import ol\<close>, \<open>Redirect\<close> the call of \<^verbatim>\<open>redirect()\<close>, and
  \<open>Enter_cache_loop\<close> and \<open>Enter_web_server_docker\<close> the calls of \<^verbatim>\<open>cache_loop()\<close> and
  \<^verbatim>\<open>web_server_docker()\<close> from \<^verbatim>\<open>main\<close>.
\<close>

datatype syscall =
    Accept fd
  | Recv_fds "fd list"
  | Fork int
  | Close fd
  | Waitpid int
  | Sendall fd "32 word"
  | Fchdir fd
  | Chroot
  | Write_pid fd int
  | Unshare
  | Bind fd
  | Exec string
  | Exit int
  | Import_ol
  | Enable_seccomp
  | Print string
  | Redirect
  | Enter_cache_loop
  | Enter_web_server_docker

record proc =
  open_fds :: "fd set"
  file_sock :: "fd option"
  trace :: "syscall list"

definition sys :: "syscall \<Rightarrow> proc \<Rightarrow> proc" where
  "sys e p = p\<lparr>trace := trace p @ [e]\<rparr>"

definition close_fd :: "fd \<Rightarrow> proc \<Rightarrow> proc" where
  "close_fd d p = p\<lparr>open_fds := open_fds p - {d}, trace := trace p @ [Close d]\<rparr>"

definition open_fd :: "fd \<Rightarrow> proc \<Rightarrow> proc" where
  "open_fd d p = p\<lparr>open_fds := insert d (open_fds p)\<rparr>"

text \<open>
  How a call ends in the process followed: it returns, an exception leaves it, the
  process is ended by \<^verbatim>\<open>os._exit\<close>, it never returns because the bootstrap serves
  forever, or (for the accept loop) it is blocked in \<^verbatim>\<open>accept\<close> with every connection
  handled.
\<close>

datatype result = Returned | Raised error | Exited int | Running | Waiting

text \<open>
  \<^verbatim>\<open>struct.pack("I", pid)\<close>: the four bytes of an unsigned 32-bit integer, an error when
  the number does not fit.
\<close>

definition pack_I :: "int \<Rightarrow> error + 32 word" where
  "pack_I n = (if 0 \<le> n \<and> n < 2 ^ 32 then Inr (word_of_int n) else Inl StructError)"

subsection \<open>\<^verbatim>\<open>start_sock_container\<close>\<close>

text \<open>
  What \<^verbatim>\<open>exec(code)\<close> does: it returns, it raises an \<^verbatim>\<open>Exception\<close> (carried as the text
  \<^verbatim>\<open>traceback.format_exc()\<close> gives for it), it raises an exception that is not an
  \<^verbatim>\<open>Exception\<close> (the script calls \<^verbatim>\<open>sys.exit()\<close>, say), or it never returns.
\<close>

datatype exec_result = Exec_returns | Exec_raises string | Exec_aborts | Exec_runs_forever

text \<open>
  What the environment answers inside \<^verbatim>\<open>start_sock_container\<close>: the value of
  \<^verbatim>\<open>ol.unshare()\<close>, the descriptor of the socket bound at \<^verbatim>\<open>SOCK_PATH\<close> or the error
  of the bind, the value of \<^verbatim>\<open>os.fork()\<close> in the process followed, the text of the
  bootstrap file, and what its execution does.
\<close>

record ssc_env =
  unshare_ret :: int
  bind_res :: "error + fd"
  fork2_res :: "error + int"
  read_res :: "error + string"
  exec_res :: exec_result

text \<open>
  The \<^verbatim>\<open>with\<close> block at the end of \<^verbatim>\<open>start_sock_container\<close>: read the script, run it,
  and in the handler of \<^verbatim>\<open>except Exception\<close> print the traceback and the script.
\<close>

definition run_bootstrap :: "ssc_env \<Rightarrow> proc \<Rightarrow> result \<times> proc" where
  "run_bootstrap env p =
     (case read_res env of
        Inl e \<Rightarrow> (Raised e, p)
      | Inr code \<Rightarrow>
          (let p1 = sys (Exec code) p
           in case exec_res env of
                Exec_returns \<Rightarrow> (Returned, p1)
              | Exec_runs_forever \<Rightarrow> (Running, p1)
              | Exec_aborts \<Rightarrow> (Raised BaseException, p1)
              | Exec_raises tb \<Rightarrow>
                  (Returned,
                   sys (Print (''Problematic Python Code:'' @ [CHR 0x0A] @ code))
                     (sys (Print (''Exception: '' @ tb)) p1))))"

definition start_sock_container :: "ssc_env \<Rightarrow> proc \<Rightarrow> result \<times> proc" where
  "start_sock_container env p =
     (let p1 = sys Unshare p in
      if unshare_ret env \<noteq> 0 then (Raised AssertionError, p1)
      else
        (case bind_res env of
           Inl e \<Rightarrow> (Raised e, p1)
         | Inr s \<Rightarrow>
             (let p2 = sys (Bind s) ((open_fd s p1)\<lparr>file_sock := Some s\<rparr>) in
              case fork2_res env of
                Inl e \<Rightarrow> (Raised e, p2)
              | Inr pid \<Rightarrow>
                  (let p3 = sys (Fork pid) p2 in
                   if \<not> 0 \<le> pid then (Raised AssertionError, p3)
                   else if 0 < pid then (Exited 0, sys (Exit 0) p3)
                   else run_bootstrap env p3))))"

subsection \<open>\<^verbatim>\<open>fork_server\<close>\<close>

text \<open>
  What the environment answers during one iteration of the accept loop: the descriptor
  of the accepted connection, the descriptors \<^verbatim>\<open>socket.recv_fds(client, 8, 2)\<close> delivers,
  the value of \<^verbatim>\<open>os.fork()\<close> in the process followed (0 in the child), whether
  \<^verbatim>\<open>sendall\<close>, the \<^verbatim>\<open>fchdir\<close>/\<^verbatim>\<open>chroot\<close> pair and the write to the cgroup file succeed,
  the value of \<^verbatim>\<open>os.getpid()\<close>, and the environment of \<^verbatim>\<open>start_sock_container\<close>.
\<close>

record conn =
  client :: fd
  fds :: "fd list"
  fork_res :: "error + int"
  send_ok :: bool
  chroot_ok :: bool
  cgroup_ok :: bool
  getpid :: int
  child_env :: ssc_env

text \<open>The branch under \<^verbatim>\<open>if pid:\<close>.\<close>

definition parent_branch :: "conn \<Rightarrow> int \<Rightarrow> fd \<Rightarrow> fd \<Rightarrow> proc \<Rightarrow> result \<times> proc" where
  "parent_branch c pid root_fd mem_cgroup_fd p =
     (let p1 = close_fd root_fd p;
          p2 = close_fd mem_cgroup_fd p1;
          p3 = sys (Waitpid pid) p2
      in case pack_I pid of
           Inl e \<Rightarrow> (Raised e, p3)
         | Inr w \<Rightarrow>
             if send_ok c
             then (Returned, close_fd (client c) (sys (Sendall (client c) w) p3))
             else (Raised OSError, p3))"

text \<open>The branch under \<^verbatim>\<open>else:\<close>, run by the child, with the listening socket \<open>l\<close>.\<close>

definition child_branch :: "conn \<Rightarrow> fd \<Rightarrow> fd \<Rightarrow> fd \<Rightarrow> proc \<Rightarrow> result \<times> proc" where
  "child_branch c l root_fd mem_cgroup_fd p =
     (let p1 = (close_fd l p)\<lparr>file_sock := None\<rparr>;
          p2 = sys (Fchdir root_fd) p1
      in if \<not> chroot_ok c then (Raised OSError, p2)
         else
           (let p3 = close_fd root_fd (sys Chroot p2);
                p4 = sys (Write_pid mem_cgroup_fd (getpid c)) p3
            in if \<not> cgroup_ok c then (Raised OSError, p4)
               else
                 (case start_sock_container (child_env c) (close_fd mem_cgroup_fd p4) of
                    (Returned, p5) \<Rightarrow> (Exited 1, sys (Exit 1) p5)
                  | (r, p5) \<Rightarrow> (r, p5))))"

text \<open>One iteration of \<^verbatim>\<open>while True\<close>, from \<^verbatim>\<open>accept\<close> on.\<close>

definition handle_conn :: "conn \<Rightarrow> proc \<Rightarrow> result \<times> proc" where
  "handle_conn c p =
     (case file_sock p of
        None \<Rightarrow> (Raised AttributeError, p)
      | Some l \<Rightarrow>
          (let p1 = sys (Accept (client c)) (open_fd (client c) p);
               p2 = sys (Recv_fds (fds c)) (p1\<lparr>open_fds := open_fds p1 \<union> set (fds c)\<rparr>)
           in case fds c of
                [root_fd, mem_cgroup_fd] \<Rightarrow>
                  (case fork_res c of
                     Inl e \<Rightarrow> (Raised e, p2)
                   | Inr pid \<Rightarrow>
                       if pid \<noteq> 0
                       then parent_branch c pid root_fd mem_cgroup_fd (sys (Fork pid) p2)
                       else child_branch c l root_fd mem_cgroup_fd (sys (Fork pid) p2))
              | _ \<Rightarrow> (Raised ValueError, p2)))"

text \<open>
  The accept loop over the connections that arrive, in order. An iteration that returns
  goes on to the next \<^verbatim>\<open>accept\<close>; any other end of an iteration ends the loop.
\<close>

fun fork_server :: "conn list \<Rightarrow> proc \<Rightarrow> result \<times> proc" where
  "fork_server [] p = (case file_sock p of None \<Rightarrow> (Raised AttributeError, p) | Some l \<Rightarrow> (Waiting, p))"
| "fork_server (c # cs) p =
     (case handle_conn c p of
        (Returned, p') \<Rightarrow> fork_server cs p'
      | (r, p') \<Rightarrow> (r, p'))"

text \<open>The replies a process has sent, and the values its forks returned.\<close>

fun replies :: "syscall list \<Rightarrow> (fd \<times> 32 word) list" where
  "replies [] = []"
| "replies (Sendall d w # es) = (d, w) # replies es"
| "replies (e # es) = replies es"

fun forks :: "syscall list \<Rightarrow> int list" where
  "forks [] = []"
| "forks (Fork n # es) = n # forks es"
| "forks (e # es) = forks es"

subsection \<open>Parent and child side by side\<close>

text \<open>
  After the fork the parent and the child run concurrently. A schedule says which of the
  two makes the next call (\<open>True\<close>: the parent); \<open>run_sched\<close> gives the calls in the
  order they happen, or \<open>None\<close> when the schedule asks a process for a call it cannot
  make. \<^verbatim>\<open>os.waitpid(pid, 0)\<close> returns only when the child has ended, that is when the
  child has no call left to make. A child that an exception ends is ended: the exception
  leaves \<^verbatim>\<open>fork_server\<close> and the handler around the bootstrap's \<^verbatim>\<open>exec\<close> lets the
  process run to its end.
\<close>

fun run_sched :: "bool list \<Rightarrow> syscall list \<Rightarrow> syscall list \<Rightarrow> syscall list option" where
  "run_sched [] ps cs = Some []"
| "run_sched (True # sch) [] cs = None"
| "run_sched (True # sch) (Waitpid n # ps) cs =
     (if cs = [] then map_option ((#) (Waitpid n)) (run_sched sch ps cs) else None)"
| "run_sched (True # sch) (e # ps) cs = map_option ((#) e) (run_sched sch ps cs)"
| "run_sched (False # sch) ps [] = None"
| "run_sched (False # sch) ps (e # cs) = map_option ((#) e) (run_sched sch ps cs)"

text \<open>The calls the two branches add to the trace they start from.\<close>

definition parent_events :: "conn \<Rightarrow> int \<Rightarrow> fd \<Rightarrow> fd \<Rightarrow> proc \<Rightarrow> syscall list" where
  "parent_events c pid root_fd mem_cgroup_fd p =
     drop (length (trace p)) (trace (snd (parent_branch c pid root_fd mem_cgroup_fd p)))"

definition child_events :: "conn \<Rightarrow> fd \<Rightarrow> fd \<Rightarrow> fd \<Rightarrow> proc \<Rightarrow> syscall list" where
  "child_events c l root_fd mem_cgroup_fd p =
     drop (length (trace p)) (trace (snd (child_branch c l root_fd mem_cgroup_fd p)))"

definition is_waitpid :: "syscall \<Rightarrow> bool" where
  "is_waitpid e = (case e of Waitpid n \<Rightarrow> True | _ \<Rightarrow> False)"


subsection \<open>A concrete request\<close>

text \<open>
  A server listening on descriptor 3 accepts a connection as descriptor 4 and receives
  the descriptors 5 and 6; its fork gives the child the pid 100, and the fork of that
  child gives the grandchild the pid 101.
\<close>

definition ssc_ok :: ssc_env where
  "ssc_ok = \<lparr>unshare_ret = 0, bind_res = Inr 3, fork2_res = Inr 101,
     read_res = Inr ''fork_server()'', exec_res = Exec_runs_forever\<rparr>"

definition conn_ok :: conn where
  "conn_ok = \<lparr>client = 4, fds = [5, 6], fork_res = Inr 100, send_ok = True,
     chroot_ok = True, cgroup_ok = True, getpid = 100, child_env = ssc_ok\<rparr>"

definition server0 :: proc where
  "server0 = \<lparr>open_fds = {0, 1, 2, 3}, file_sock = Some 3, trace = []\<rparr>"


text \<open>The server between \<^verbatim>\<open>recv_fds\<close> and \<^verbatim>\<open>os.fork()\<close>, and a request whose child meets a failing \<^verbatim>\<open>ol.unshare()\<close>.\<close>

definition server_at_fork :: proc where
  "server_at_fork = \<lparr>open_fds = {0, 1, 2, 3, 4, 5, 6}, file_sock = Some 3,
     trace = [Accept 4, Recv_fds [5, 6]]\<rparr>"

definition conn_unshare_fails :: conn where
  "conn_unshare_fails = conn_ok\<lparr>child_env := ssc_ok\<lparr>unshare_ret := - 1\<rparr>\<rparr>"

section \<open>The entry point\<close>

subsection \<open>The command line\<close>

text \<open>
  The namespace \<^verbatim>\<open>parser.parse_args()\<close> returns has one attribute for each
  \<^verbatim>\<open>add_argument\<close> of \<^verbatim>\<open>main\<close>, and starts from the defaults given there.
\<close>

record args =
  a_env :: string
  a_bootstrap :: "string option"
  a_cache :: bool
  a_cgroup_count :: int
  a_enable_seccomp :: bool

definition default_args :: args where
  "default_args = \<lparr>a_env = ''sock'', a_bootstrap = None, a_cache = False,
     a_cgroup_count = 0, a_enable_seccomp = True\<rparr>"

text \<open>
  How the words of a command line are matched against the declared options (prefixes,
  \<^verbatim>\<open>--option=value\<close>, what counts as a value) is the work of the \<^verbatim>\<open>argparse\<close> library.
  The model starts from what that matching finds: the occurrences of the declared options
  in the order of the command line, the one of \<^verbatim>\<open>--cgroup-count\<close> with the number
  \<^verbatim>\<open>int\<close> made of its value, the help option that \<^verbatim>\<open>argparse\<close> adds included; and
  whether \<^verbatim>\<open>argparse\<close> rejects the command line after them (a word that is no option, an
  ambiguous prefix, a value that is missing, not a number, or given to an option that
  takes none).
\<close>

datatype occurrence =
    Opt_help
  | Opt_env string
  | Opt_bootstrap string
  | Opt_cache
  | Opt_cgroup_count int
  | Opt_enable_seccomp

record cmdline =
  occurrences :: "occurrence list"
  rejected :: bool

text \<open>
  The action of one occurrence on the namespace, from the \<^verbatim>\<open>add_argument\<close> that
  declares the option: \<^verbatim>\<open>--env\<close> stores its value when it is one of the choices and is
  an error otherwise; \<^verbatim>\<open>--bootstrap\<close> and \<^verbatim>\<open>--cgroup-count\<close> store their value; the two
  \<^verbatim>\<open>store_true\<close> options store \<^verbatim>\<open>True\<close>. The help option ends the process with status
  0, an error with status 2.
\<close>

definition take_action :: "occurrence \<Rightarrow> args \<Rightarrow> nat + args" where
  "take_action occ a =
     (case occ of
        Opt_help \<Rightarrow> Inl 0
      | Opt_env v \<Rightarrow> if v = ''sock'' \<or> v = ''docker'' then Inr (a\<lparr>a_env := v\<rparr>) else Inl 2
      | Opt_bootstrap v \<Rightarrow> Inr (a\<lparr>a_bootstrap := Some v\<rparr>)
      | Opt_cache \<Rightarrow> Inr (a\<lparr>a_cache := True\<rparr>)
      | Opt_cgroup_count n \<Rightarrow> Inr (a\<lparr>a_cgroup_count := n\<rparr>)
      | Opt_enable_seccomp \<Rightarrow> Inr (a\<lparr>a_enable_seccomp := True\<rparr>))"

fun take_actions :: "occurrence list \<Rightarrow> args \<Rightarrow> nat + args" where
  "take_actions [] a = Inr a"
| "take_actions (occ # occs) a =
     (case take_action occ a of
        Inl code \<Rightarrow> Inl code
      | Inr a' \<Rightarrow> take_actions occs a')"

definition parse_args :: "cmdline \<Rightarrow> nat + args" where
  "parse_args cl =
     (case take_actions (occurrences cl) default_args of
        Inl code \<Rightarrow> Inl code
      | Inr a \<Rightarrow> if rejected cl then Inl 2 else Inr a)"

subsection \<open>\<^verbatim>\<open>main\<close>\<close>

text \<open>
  What the environment answers inside \<^verbatim>\<open>main\<close> in sock mode: whether \<^verbatim>\<open>import ol\<close>
  finds the module, the value of \<^verbatim>\<open>ol.enable_seccomp()\<close>, the value of \<^verbatim>\<open>os.getpid()\<close>,
  and the environment of \<^verbatim>\<open>start_sock_container\<close>.
\<close>

record main_env =
  ol_import_ok :: bool
  seccomp_ret :: int
  main_pid :: int
  ssc :: ssc_env

text \<open>
  The loop over the cgroup descriptors: \<^verbatim>\<open>os.fdopen(fd_id, "w")\<close> raises \<^verbatim>\<open>OSError\<close>
  on a descriptor that is not open; leaving the \<^verbatim>\<open>with\<close> block writes the pid and closes
  the descriptor.
\<close>

fun join_cgroups :: "fd list \<Rightarrow> int \<Rightarrow> proc \<Rightarrow> result \<times> proc" where
  "join_cgroups [] pid p = (Returned, p)"
| "join_cgroups (d # ds) pid p =
     (if d \<in> open_fds p
      then join_cgroups ds pid (close_fd d (sys (Write_pid d pid) p))
      else (Raised OSError, p))"

text \<open>
  The branch \<^verbatim>\<open>if args.env == "sock"\<close>. When \<^verbatim>\<open>start_sock_container\<close> returns, \<^verbatim>\<open>main\<close>
  returns and the interpreter ends the process with status 0.
\<close>

definition main_sock :: "args \<Rightarrow> main_env \<Rightarrow> proc \<Rightarrow> result \<times> proc" where
  "main_sock a env p =
     (let p1 = sys Import_ol (sys (Print ''Running in SOCK environment'') p)
      in if \<not> ol_import_ok env then (Raised ImportError, p1)
         else
           (let p2 = (if a_enable_seccomp a then sys Enable_seccomp p1 else p1)
            in if a_enable_seccomp a \<and> \<not> 0 \<le> seccomp_ret env then (Raised AssertionError, p2)
               else
                 (let p3 = (if a_enable_seccomp a then sys (Print ''seccomp enabled'') p2 else p2)
                  in if a_bootstrap a = None \<or> a_bootstrap a = Some []
                     then (Exited 1,
                           sys (Print ''Error: --bootstrap is required in sock mode.'') p3)
                     else
                       (case join_cgroups (map (\<lambda>i. 3 + i) [0..<nat (a_cgroup_count a)])
                               (main_pid env) p3 of
                          (Returned, p4) \<Rightarrow>
                            (case start_sock_container (ssc env) p4 of
                               (Returned, p5) \<Rightarrow> (Exited 0, p5)
                             | (r, p5) \<Rightarrow> (r, p5))
                        | (r, p4) \<Rightarrow> (r, p4)))))"

text \<open>The branch \<^verbatim>\<open>elif args.env == "docker"\<close>; neither server returns.\<close>

definition main_docker :: "args \<Rightarrow> proc \<Rightarrow> result \<times> proc" where
  "main_docker a p =
     (let p1 = sys (Print ''Running in Docker environment...'') (sys Redirect p)
      in (Running, sys (if a_cache a then Enter_cache_loop else Enter_web_server_docker) p1))"

definition main :: "cmdline \<Rightarrow> main_env \<Rightarrow> proc \<Rightarrow> result \<times> proc" where
  "main cl env p =
     (case parse_args cl of
        Inl code \<Rightarrow> (Exited (int code), p)
      | Inr a \<Rightarrow>
          if a_env a = ''sock'' then main_sock a env p
          else if a_env a = ''docker'' then main_docker a p
          else (Exited 1, sys (Print (''Unknown environment: '' @ a_env a)) p))"

subsection \<open>A bootstrap script that raises\<close>

text \<open>
  A first process with the three standard descriptors open, started as
  \<^verbatim>\<open>--bootstrap /boot.py\<close>, whose script is the one line \<^verbatim>\<open>boom()\<close>. The process
  followed is the one that runs the script (its fork in \<^verbatim>\<open>start_sock_container\<close>
  returns 0). In \<open>ssc_bootstrap_raises\<close> the script raises \<^verbatim>\<open>NameError\<close>;
  \<open>traceback_example\<close> is the text \<^verbatim>\<open>traceback.format_exc()\<close> then gives under Python
  3.10 when the server file lies at \<^verbatim>\<open>/server.py\<close> (the frames name the file and the
  line of the \<^verbatim>\<open>exec\<close>). In \<open>ssc_bootstrap_exits\<close> the script is \<^verbatim>\<open>sys.exit(3)\<close>, which
  raises \<^verbatim>\<open>SystemExit\<close>.
\<close>

definition proc0 :: proc where
  "proc0 = \<lparr>open_fds = {0, 1, 2}, file_sock = None, trace = []\<rparr>"

definition boot_cmdline :: cmdline where
  "boot_cmdline = \<lparr>occurrences = [Opt_bootstrap ''/boot.py''], rejected = False\<rparr>"

definition traceback_example :: string where
  "traceback_example =
     ''Traceback (most recent call last):'' @ [CHR 0x0A] @
     ''  File '' @ [CHR 0x22] @ ''/server.py'' @ [CHR 0x22] @
       '', line 279, in start_sock_container'' @ [CHR 0x0A] @
     ''    exec(code)'' @ [CHR 0x0A] @
     ''  File '' @ [CHR 0x22] @ ''<string>'' @ [CHR 0x22] @ '', line 1, in <module>'' @ [CHR 0x0A] @
     ''NameError: name '' @ [CHR 0x27] @ ''boom'' @ [CHR 0x27] @ '' is not defined'' @ [CHR 0x0A]"

definition ssc_bootstrap_raises :: ssc_env where
  "ssc_bootstrap_raises = \<lparr>unshare_ret = 0, bind_res = Inr 3, fork2_res = Inr 0,
     read_res = Inr ''boom()'', exec_res = Exec_raises traceback_example\<rparr>"

definition ssc_bootstrap_exits :: ssc_env where
  "ssc_bootstrap_exits = \<lparr>unshare_ret = 0, bind_res = Inr 3, fork2_res = Inr 0,
     read_res = Inr ''sys.exit(3)'', exec_res = Exec_aborts\<rparr>"

definition env_bootstrap_raises :: main_env where
  "env_bootstrap_raises =
     \<lparr>ol_import_ok = True, seccomp_ret = 0, main_pid = 50, ssc = ssc_bootstrap_raises\<rparr>"

section \<open>The request handler\<close>

subsection \<open>Values and calls\<close>

text \<open>
  The request body is a Python \<^verbatim>\<open>bytes\<close> object: a list of characters, one for each
  byte. \<open>pyval\<close> has the Python values that \<^verbatim>\<open>json.loads\<close> returns (a float carried as
  its text). \<^verbatim>\<open>json.loads\<close> returns a value or raises an \<^verbatim>\<open>Exception\<close>
  (\<^verbatim>\<open>JSONDecodeError\<close>, \<^verbatim>\<open>UnicodeDecodeError\<close>): \<open>None\<close> stands for that.
\<close>

datatype pyval =
    PNone
  | PBool bool
  | PInt int
  | PFloat string
  | PStr string
  | PList "pyval list"
  | PDict "(string \<times> pyval) list"

text \<open>
  What a call of the handler, or of \<^verbatim>\<open>json.dumps\<close> on its result, does: it returns a
  value, it raises an \<^verbatim>\<open>Exception\<close>, or it raises an exception that is not an
  \<^verbatim>\<open>Exception\<close> (a handler that calls \<^verbatim>\<open>sys.exit()\<close>). Every line of the text that
  \<^verbatim>\<open>traceback.format_exc()\<close> gives ends with a newline; an \<^verbatim>\<open>Exception\<close> raised is
  carried as that text without its last newline.
\<close>

datatype 'a outcome = Returns 'a | Raises string | Aborts

definition format_exc :: "string \<Rightarrow> string" where
  "format_exc t = t @ [CHR 0x0A]"

text \<open>
  What the environment gives while one request is handled: the body of the request, what
  \<^verbatim>\<open>json.loads\<close> makes of it when it is called, the function \<^verbatim>\<open>f\<close> of the handler
  module, and what \<^verbatim>\<open>json.dumps\<close> does on the result of the handler when there is one.
\<close>

record http_request =
  body :: string
  loads_res :: "pyval option"
  handler_f :: "pyval \<Rightarrow> pyval outcome"
  dumps_res :: "string outcome"

text \<open>
  The response: the status, 200 unless \<^verbatim>\<open>set_status\<close> is called, and what
  \<^verbatim>\<open>self.write\<close> has written.
\<close>

record response =
  status :: nat
  written :: string

subsection \<open>The text of a \<^verbatim>\<open>bytes\<close> object\<close>

text \<open>
  The f-string \<^verbatim>\<open>f'Bad request data: "{data}"'\<close> formats \<^verbatim>\<open>data\<close>, a \<^verbatim>\<open>bytes\<close>
  object, by \<^verbatim>\<open>str(data)\<close>, which is its \<^verbatim>\<open>repr\<close>: the letter \<^verbatim>\<open>b\<close>, a quote, the
  bytes with the quote, the backslash and every byte outside the printable ASCII range
  escaped, and the quote again. The quote is the single quote, unless the bytes hold a
  single quote and no double quote.
\<close>

definition hex_digit :: "nat \<Rightarrow> char" where
  "hex_digit n = ''0123456789abcdef'' ! n"

definition escape_byte :: "char \<Rightarrow> char \<Rightarrow> string" where
  "escape_byte q c =
     (if c = q \<or> c = CHR 0x5C then [CHR 0x5C, c]
      else if c = CHR 0x09 then [CHR 0x5C, CHR ''t'']
      else if c = CHR 0x0A then [CHR 0x5C, CHR ''n'']
      else if c = CHR 0x0D then [CHR 0x5C, CHR ''r'']
      else if (of_char c :: nat) < 32 \<or> 127 \<le> (of_char c :: nat)
        then [CHR 0x5C, CHR ''x'', hex_digit (of_char c div 16), hex_digit (of_char c mod 16)]
      else [c])"

definition bytes_repr :: "string \<Rightarrow> string" where
  "bytes_repr bs =
     (let q = (if CHR 0x27 \<in> set bs \<and> CHR 0x22 \<notin> set bs then CHR 0x22 else CHR 0x27)
      in [CHR ''b'', q] @ concat (map (escape_byte q) bs) @ [q])"

definition printable :: "char \<Rightarrow> bool" where
  "printable c = (32 \<le> (of_char c :: nat) \<and> (of_char c :: nat) < 127)"

subsection \<open>\<^verbatim>\<open>handle_request\<close>\<close>

text \<open>The line \<^verbatim>\<open>event = json.loads(data) if data else None\<close>.\<close>

definition parse_body :: "http_request \<Rightarrow> pyval option" where
  "parse_body rq = (if body rq = [] then Some PNone else loads_res rq)"

text \<open>
  \<^verbatim>\<open>handle_request\<close>. The inner handler answers a body that \<^verbatim>\<open>json.loads\<close> rejects, the
  outer one an \<^verbatim>\<open>Exception\<close> from the handler or from \<^verbatim>\<open>json.dumps\<close>; an exception that
  is not an \<^verbatim>\<open>Exception\<close> leaves \<^verbatim>\<open>handle_request\<close> with nothing written.
\<close>

definition handle_request :: "http_request \<Rightarrow> error + response" where
  "handle_request rq =
     (case parse_body rq of
        None \<Rightarrow>
          Inr \<lparr>status = 400,
               written = ''Bad request data: '' @ [CHR 0x22] @ bytes_repr (body rq) @ [CHR 0x22]\<rparr>
      | Some event \<Rightarrow>
          (case handler_f rq (if event \<noteq> PNone then event else PDict []) of
             Aborts \<Rightarrow> Inl BaseException
           | Raises t \<Rightarrow> Inr \<lparr>status = 500, written = format_exc t\<rparr>
           | Returns result \<Rightarrow>
               (case dumps_res rq of
                  Aborts \<Rightarrow> Inl BaseException
                | Raises t \<Rightarrow> Inr \<lparr>status = 500, written = format_exc t\<rparr>
                | Returns text \<Rightarrow> Inr \<lparr>status = 200, written = text\<rparr>)))"

subsection \<open>Some requests\<close>

text \<open>
  Three handlers \<^verbatim>\<open>/handler/f.py\<close>: one whose \<^verbatim>\<open>f\<close> is the one statement
  \<^verbatim>\<open>raise RuntimeError("boom")\<close>, with the traceback text (less its last newline) that
  Python 3.10 gives in \<^verbatim>\<open>handle_request\<close> when the server file lies at \<^verbatim>\<open>/server.py\<close>;
  one whose \<^verbatim>\<open>f\<close> calls \<^verbatim>\<open>sys.exit(1)\<close>; and one whose \<^verbatim>\<open>f\<close> returns its argument.
\<close>

definition handler_traceback :: string where
  "handler_traceback =
     ''Traceback (most recent call last):'' @ [CHR 0x0A] @
     ''  File '' @ [CHR 0x22] @ ''/server.py'' @ [CHR 0x22] @
       '', line 67, in handle_request'' @ [CHR 0x0A] @
     ''    result = handler_module.f(event) if event is not None else handler_module.f({})''
       @ [CHR 0x0A] @
     ''  File '' @ [CHR 0x22] @ ''/handler/f.py'' @ [CHR 0x22] @ '', line 2, in f'' @ [CHR 0x0A] @
     ''    raise RuntimeError('' @ [CHR 0x22] @ ''boom'' @ [CHR 0x22] @ '')'' @ [CHR 0x0A] @
     ''RuntimeError: boom''"

definition f_raises :: "pyval \<Rightarrow> pyval outcome" where
  "f_raises event = Raises handler_traceback"

definition f_exits :: "pyval \<Rightarrow> pyval outcome" where
  "f_exits event = Aborts"

definition f_echo :: "pyval \<Rightarrow> pyval outcome" where
  "f_echo event = Returns event"

text \<open>
  The bodies: \<^verbatim>\<open>{\<close> followed by a newline, and \<^verbatim>\<open>not json\<close>, which \<^verbatim>\<open>json.loads\<close>
  rejects; and \<^verbatim>\<open>{}\<close>, the empty dictionary, which \<^verbatim>\<open>json.dumps\<close> writes as \<^verbatim>\<open>{}\<close>.
\<close>

definition rq_brace_newline :: http_request where
  "rq_brace_newline = \<lparr>body = [CHR 0x7B, CHR 0x0A], loads_res = None,
     handler_f = f_echo, dumps_res = Returns ''{}''\<rparr>"

definition rq_not_json :: http_request where
  "rq_not_json = \<lparr>body = ''not json'', loads_res = None,
     handler_f = f_echo, dumps_res = Returns ''{}''\<rparr>"

definition rq_empty_dict :: http_request where
  "rq_empty_dict = \<lparr>body = ''{}'', loads_res = Some (PDict []),
     handler_f = f_echo, dumps_res = Returns ''{}''\<rparr>"

section \<open>Properties of the cache loop\<close>

lemma split_acc_Nil_iff:
  "split_acc cur s = [] \<longleftrightarrow> cur = [] \<and> (\<forall>c\<in>set s. is_space c)"
  by (induction s arbitrary: cur) auto

lemma split_ws_Nil_iff: "split_ws s = [] \<longleftrightarrow> (\<forall>c\<in>set s. is_space c)"
  by (simp add: split_ws_def split_acc_Nil_iff)

text \<open>No step of the loop assigns \<^verbatim>\<open>r\<close>.\<close>

lemma py_print_r: "py_print line s = Inr s' \<Longrightarrow> cl_r s' = cl_r s"
  by (auto simp: py_print_def emit_def split: if_splits)

lemma flush_r: "flush s = Inr s' \<Longrightarrow> cl_r s' = cl_r s"
  by (auto simp: flush_def split: if_splits)

lemma redirect_r: "redirect s = Inr s' \<Longrightarrow> cl_r s' = cl_r s"
  by (auto simp: redirect_def split: if_splits)

lemma import_one_r: "import_one imp m s = Inr s' \<Longrightarrow> cl_r s' = cl_r s"
  by (auto simp: import_one_def split: import_result.splits if_splits dest: py_print_r)

lemma import_mods_r: "import_mods imp ms s = Inr s' \<Longrightarrow> cl_r s' = cl_r s"
proof (induction ms arbitrary: s)
  case Nil
  then show ?case by simp
next
  case (Cons m ms)
  from Cons.prems obtain s1 s2 where
    a: "py_print (''importing: '' @ m) s = Inr s1" and b: "import_one imp m s1 = Inr s2"
    and c: "import_mods imp ms s2 = Inr s'"
    by (auto split: sum.splits)
  from Cons.IH [OF c] import_one_r [OF b] py_print_r [OF a] show ?case by simp
qed

lemma and_then_Inr: "and_then r f = Inr s' \<Longrightarrow> \<exists>s1. r = Inr s1 \<and> f s1 = Inr s'"
  by (cases r) (simp_all add: and_then_def)

lemma and_then_simps:
  "and_then (Inr x) f = f x" "and_then (Inl e) f = Inl e"
  by (simp_all add: and_then_def)

lemma child_block_Inr:
  "child_block imp mods s = Inr s' \<Longrightarrow>
     \<exists>s1 s2 s3. redirect s = Inr s1 \<and> import_mods imp mods s1 = Inr s2
       \<and> py_print (''signal: '' @ cl_signal s2) s2 = Inr s3 \<and> flush s3 = Inr s'"
proof -
  assume "child_block imp mods s = Inr s'"
  then obtain s3 where
    a: "and_then (and_then (redirect s) (import_mods imp mods))
          (\<lambda>s2. py_print (''signal: '' @ cl_signal s2) s2) = Inr s3"
    and f: "flush s3 = Inr s'"
    unfolding child_block_def using and_then_Inr by blast
  from and_then_Inr [OF a] obtain s2 where
    b: "and_then (redirect s) (import_mods imp mods) = Inr s2"
    and p: "py_print (''signal: '' @ cl_signal s2) s2 = Inr s3"
    by blast
  from and_then_Inr [OF b] obtain s1 where
    "redirect s = Inr s1" "import_mods imp mods s1 = Inr s2"
    by blast
  with p f show ?thesis by blast
qed

lemma child_block_r: "child_block imp mods s = Inr s' \<Longrightarrow> cl_r s' = cl_r s"
proof -
  assume "child_block imp mods s = Inr s'"
  from child_block_Inr [OF this] obtain s1 s2 s3 where
    a: "redirect s = Inr s1" and b: "import_mods imp mods s1 = Inr s2"
    and c: "py_print (''signal: '' @ cl_signal s2) s2 = Inr s3" and d: "flush s3 = Inr s'"
    by blast
  from redirect_r [OF a] import_mods_r [OF b] py_print_r [OF c] flush_r [OF d]
  show ?thesis by simp
qed

lemma after_parse_r: "after_parse imp mods sig rv s = Inr s' \<Longrightarrow> cl_r s' = cl_r s"
proof -
  assume "after_parse imp mods sig rv s = Inr s'"
  then obtain s2 s3 s4 where
    a: "(if rv = 0 then child_block imp mods (s\<lparr>cl_signal := sig\<rparr>)
         else Inr (s\<lparr>cl_signal := sig\<rparr>)) = Inr s2"
    and b: "py_print [] s2 = Inr s3" and c: "flush s3 = Inr s4"
    and d: "s' = s4\<lparr>cl_count := Suc (cl_count s4)\<rparr>"
    unfolding after_parse_def Let_def by (fastforce dest: and_then_Inr)
  from a have "cl_r s2 = cl_r s"
    by (auto split: if_splits dest: child_block_r)
  with py_print_r [OF b] flush_r [OF c] d show ?thesis by simp
qed

lemma loop_body_r: "loop_body imp rq s = Inr s' \<Longrightarrow> cl_r s' = cl_r s"
  by (auto simp: loop_body_def Let_def split: if_splits dest: after_parse_r)

lemma loop_head_r [simp]: "cl_r (loop_head s) = cl_r s"
  by (simp add: loop_head_def emit_def)

lemma head_step_r: "head_step s = Inr s' \<Longrightarrow> cl_r s' = cl_r s"
  by (auto simp: head_step_def split: if_splits)

lemma cache_loop_from_never_serving:
  "cl_r s \<noteq> 0 \<Longrightarrow> cache_loop_from imp rqs s \<noteq> Serving x"
proof (induction rqs arbitrary: s)
  case Nil
  then show ?case by (simp split: sum.splits prod.splits)
next
  case (Cons rq rqs)
  show ?case
  proof (cases "head_step s")
    case (Inl f)
    with Cons.prems show ?thesis by (simp split: prod.splits)
  next
    case h: (Inr s1)
    then have r1: "cl_r s1 \<noteq> 0"
      using Cons.prems head_step_r by fastforce
    show ?thesis
    proof (cases "loop_body imp rq s1")
      case (Inl f)
      with h Cons.prems show ?thesis by (simp split: prod.splits)
    next
      case (Inr s')
      then have "cl_r s' \<noteq> 0"
        using r1 loop_body_r by fastforce
      with Cons.IH Inr h Cons.prems show ?thesis by simp
    qed
  qed
qed

lemma cache_loop_never_serving: "cache_loop imp rqs \<noteq> Serving x"
  unfolding cache_loop_def
  by (rule cache_loop_from_never_serving) (simp add: cache_init_def)

text \<open>
  Claim C1. The claim: the loop is left exactly on an iteration whose fork return is 0
  and whose signal is not \<^verbatim>\<open>cache\<close>. The code at that input: after the request
  \<^verbatim>\<open>go\<close> with fork return 0 the process has printed the signal, and is back in
  \<^verbatim>\<open>LISTENING\<close> instead of serving, with \<^verbatim>\<open>r\<close> still \<open>- 1\<close>.
\<close>

theorem cache_loop_go_child_keeps_listening:
  "cache_loop imp [(''go'', 0)] =
     Listening \<lparr>cl_r = - 1, cl_signal = ''go'', cl_count = 1, cl_imported = [],
       cl_out = [''LISTENING'', ''signal: go'', [], ''LISTENING''],
       cl_redirects = 1, cl_resets = 0\<rparr>"
  by (simp add: cache_loop_def cache_init_def head_step_def loop_head_def loop_body_def
      after_parse_def child_block_def and_then_def redirect_def py_print_def flush_def
      bound_def split_ws_def is_space_def emit_def)


text \<open>
  The import step when nothing gets in its way: no import raises an exception outside
  \<^verbatim>\<open>Exception\<close>, and no name the block looks up is bound to a module, before the step or
  by it.
\<close>

lemma import_mods_benign:
  assumes "\<forall>n\<in>set child_names. \<not> bound n s"
    and "\<forall>m\<in>set ms. imp m \<noteq> Import_abort \<and> (imp m = Loaded \<longrightarrow> m \<notin> set child_names)"
  shows "\<exists>s'. import_mods imp ms s = Inr s'
       \<and> s' = s\<lparr>cl_imported := cl_imported s @ filter (\<lambda>m. imp m = Loaded) ms,
                cl_out := cl_out s @ import_log imp ms\<rparr>"
  using assms
proof (induction ms arbitrary: s)
  case Nil
  then show ?case by simp
next
  case (Cons m ms)
  from Cons.prems(1) have np: "\<not> bound ''print'' s" and ng: "\<not> bound ''globals'' s"
    by (simp_all add: child_names_def)
  let ?s1 = "emit (''importing: '' @ m) s"
  have p: "py_print (''importing: '' @ m) s = Inr ?s1"
    using np by (simp add: py_print_def)
  have b1: "\<And>n. bound n ?s1 = bound n s"
    by (simp add: bound_def emit_def)
  from Cons.prems(2) have na: "imp m \<noteq> Import_abort"
    and ld: "imp m = Loaded \<longrightarrow> m \<notin> set child_names"
    and rest: "\<forall>m\<in>set ms. imp m \<noteq> Import_abort \<and> (imp m = Loaded \<longrightarrow> m \<notin> set child_names)"
    by simp_all
  show ?case
  proof (cases "imp m")
    case Loaded
    let ?s2 = "?s1\<lparr>cl_imported := cl_imported ?s1 @ [m]\<rparr>"
    have o: "import_one imp m ?s1 = Inr ?s2"
      using Loaded ng b1 by (simp add: import_one_def)
    from ld Loaded have "m \<notin> set child_names" by simp
    with Cons.prems(1) have c2: "\<forall>n\<in>set child_names. \<not> bound n ?s2"
      by (auto simp: bound_def emit_def)
    from Cons.IH [OF c2 rest] obtain s' where
      "import_mods imp ms ?s2 = Inr s'"
      "s' = ?s2\<lparr>cl_imported := cl_imported ?s2 @ filter (\<lambda>m. imp m = Loaded) ms,
                cl_out := cl_out ?s2 @ import_log imp ms\<rparr>"
      by blast
    with p o Loaded show ?thesis
      by (simp add: emit_def)
  next
    case (Import_error err)
    let ?s2 = "emit (failed_line m err) ?s1"
    have o: "import_one imp m ?s1 = Inr ?s2"
      using Import_error np b1 by (simp add: import_one_def py_print_def)
    from Cons.prems(1) have c2: "\<forall>n\<in>set child_names. \<not> bound n ?s2"
      by (simp add: bound_def emit_def)
    from Cons.IH [OF c2 rest] obtain s' where
      "import_mods imp ms ?s2 = Inr s'"
      "s' = ?s2\<lparr>cl_imported := cl_imported ?s2 @ filter (\<lambda>m. imp m = Loaded) ms,
                cl_out := cl_out ?s2 @ import_log imp ms\<rparr>"
      by blast
    with p o Import_error show ?thesis
      by (simp add: emit_def)
  next
    case Import_abort
    with na show ?thesis by simp
  qed
qed

lemma child_block_benign:
  assumes "\<forall>n\<in>set child_names. \<not> bound n s"
    and "\<forall>m\<in>set mods. imp m \<noteq> Import_abort \<and> (imp m = Loaded \<longrightarrow> m \<notin> set child_names)"
  shows "child_block imp mods s =
      Inr (s\<lparr>cl_imported := cl_imported s @ filter (\<lambda>m. imp m = Loaded) mods,
             cl_out := cl_out s @ import_log imp mods @ [''signal: '' @ cl_signal s],
             cl_redirects := Suc (cl_redirects s)\<rparr>)"
proof -
  let ?s1 = "s\<lparr>cl_redirects := Suc (cl_redirects s)\<rparr>"
  from assms(1) have r: "redirect s = Inr ?s1"
    by (simp add: redirect_def child_names_def)
  from assms(1) have c1: "\<forall>n\<in>set child_names. \<not> bound n ?s1"
    by (simp add: bound_def)
  let ?s2 = "?s1\<lparr>cl_imported := cl_imported ?s1 @ filter (\<lambda>m. imp m = Loaded) mods,
                cl_out := cl_out ?s1 @ import_log imp mods\<rparr>"
  from import_mods_benign [OF c1 assms(2)] have i: "import_mods imp mods ?s1 = Inr ?s2"
    by blast
  have np: "\<not> bound ''print'' ?s2" and nf: "\<not> bound ''flush'' ?s2"
  proof -
    have "\<forall>n\<in>set child_names. n \<notin> set (filter (\<lambda>m. imp m = Loaded) mods)"
      using assms(2) by auto
    with assms(1) have "\<forall>n\<in>set child_names. \<not> bound n ?s2"
      by (auto simp: bound_def)
    then show "\<not> bound ''print'' ?s2" and "\<not> bound ''flush'' ?s2"
      by (simp_all add: child_names_def)
  qed
  let ?s3 = "emit (''signal: '' @ cl_signal ?s2) ?s2"
  have pr: "py_print (''signal: '' @ cl_signal ?s2) ?s2 = Inr ?s3"
    using np by (simp add: py_print_def)
  have "bound ''flush'' ?s3 = bound ''flush'' ?s2"
    by (simp add: bound_def emit_def)
  with nf have fl: "flush ?s3 = Inr ?s3"
    by (simp add: flush_def)
  have "child_block imp mods s = Inr ?s3"
    by (simp only: child_block_def r and_then_simps i pr fl)
  then show ?thesis
    by (simp add: emit_def)
qed


lemma after_parse_benign:
  assumes "\<forall>n\<in>set child_names. \<not> bound n s"
    and "rv = 0 \<longrightarrow>
      (\<forall>m\<in>set mods. imp m \<noteq> Import_abort \<and> (imp m = Loaded \<longrightarrow> m \<notin> set child_names))"
  shows "\<exists>s'. after_parse imp mods sig rv s = Inr s' \<and> cl_signal s' = sig
       \<and> cl_imported s' =
           cl_imported s @ (if rv = 0 then filter (\<lambda>m. imp m = Loaded) mods else [])"
proof -
  let ?s1 = "s\<lparr>cl_signal := sig\<rparr>"
  from assms(1) have c1: "\<forall>n\<in>set child_names. \<not> bound n ?s1"
    by (simp add: bound_def)
  obtain s2 where s2: "(if rv = 0 then child_block imp mods ?s1 else Inr ?s1) = Inr s2"
    and sig: "cl_signal s2 = sig"
    and imp2: "cl_imported s2 =
        cl_imported s @ (if rv = 0 then filter (\<lambda>m. imp m = Loaded) mods else [])"
  proof (cases "rv = 0")
    case True
    with assms(2) have
      "\<forall>m\<in>set mods. imp m \<noteq> Import_abort \<and> (imp m = Loaded \<longrightarrow> m \<notin> set child_names)"
      by simp
    from child_block_benign [OF c1 this] True that show ?thesis
      by simp
  next
    case False
    with that show ?thesis by simp
  qed
  have c2: "\<forall>n\<in>set child_names. \<not> bound n s2"
  proof -
    have "\<forall>n\<in>set child_names. n \<notin> set (filter (\<lambda>m. imp m = Loaded) mods) \<or> rv \<noteq> 0"
      using assms(2) by auto
    with assms(1) show ?thesis
      unfolding bound_def imp2 by auto
  qed
  then have np: "\<not> bound ''print'' s2" and nf: "\<not> bound ''flush'' s2"
    by (simp_all add: child_names_def)
  have pr: "py_print [] s2 = Inr (emit [] s2)"
    using np by (simp add: py_print_def)
  have "bound ''flush'' (emit [] s2) = bound ''flush'' s2"
    by (simp add: bound_def emit_def)
  with nf have fl: "flush (emit [] s2) = Inr (emit [] s2)"
    by (simp add: flush_def)
  have "after_parse imp mods sig rv s =
      Inr ((emit [] s2)\<lparr>cl_count := Suc (cl_count (emit [] s2))\<rparr>)"
    by (simp only: after_parse_def Let_def s2 and_then_simps pr fl)
  with sig imp2 show ?thesis
    by (simp add: emit_def)
qed

text \<open>
  Claim C9. A control line needs a token. When every character of the line is
  whitespace (the empty line included), \<^verbatim>\<open>data[-1]\<close> raises \<^verbatim>\<open>IndexError\<close>, nothing
  catches it and the loop ends with that error. Otherwise the iteration goes on with the
  last token as the signal and the tokens before it as the modules to import; and when
  the imports that follow in the child do not themselves end the iteration (see the
  import step), it completes with that signal and with the modules that loaded bound.
\<close>

theorem control_line_needs_a_token:
  "((\<forall>c\<in>set line. is_space c) \<longrightarrow>
      loop_body imp (line, rv) s = Inl (IndexError, s)
      \<and> cache_loop imp ((line, rv) # rqs) = Crashed IndexError (loop_head cache_init))
   \<and> (\<not> (\<forall>c\<in>set line. is_space c) \<longrightarrow>
      loop_body imp (line, rv) s =
        after_parse imp (butlast (split_ws line)) (last (split_ws line)) rv s)
   \<and> (\<not> (\<forall>c\<in>set line. is_space c)
       \<and> (\<forall>n\<in>set child_names. \<not> bound n s)
       \<and> (rv = 0 \<longrightarrow> (\<forall>m\<in>set (butlast (split_ws line)).
              imp m \<noteq> Import_abort \<and> (imp m = Loaded \<longrightarrow> m \<notin> set child_names))) \<longrightarrow>
      (\<exists>s'. loop_body imp (line, rv) s = Inr s'
         \<and> cl_signal s' = last (split_ws line)
         \<and> cl_imported s' = cl_imported s @
             (if rv = 0 then filter (\<lambda>m. imp m = Loaded) (butlast (split_ws line)) else [])))"
proof (intro conjI impI)
  assume blank: "\<forall>c\<in>set line. is_space c"
  then have nil: "split_ws line = []"
    by (simp add: split_ws_Nil_iff)
  then show "loop_body imp (line, rv) s = Inl (IndexError, s)"
    by (simp add: loop_body_def)
  from nil have b: "loop_body imp (line, rv) (loop_head cache_init) =
      Inl (IndexError, loop_head cache_init)"
    by (simp add: loop_body_def)
  have h: "head_step cache_init = Inr (loop_head cache_init)"
    by (simp add: head_step_def bound_def cache_init_def)
  have c: "cl_r cache_init \<noteq> 0 \<or> cl_signal cache_init = ''cache''"
    by (simp add: cache_init_def)
  show "cache_loop imp ((line, rv) # rqs) = Crashed IndexError (loop_head cache_init)"
    unfolding cache_loop_def using c by (simp add: h b)
next
  assume "\<not> (\<forall>c\<in>set line. is_space c)"
  then have "split_ws line \<noteq> []"
    by (simp add: split_ws_Nil_iff)
  then show "loop_body imp (line, rv) s =
      after_parse imp (butlast (split_ws line)) (last (split_ws line)) rv s"
    by (simp add: loop_body_def Let_def)
next
  assume a: "\<not> (\<forall>c\<in>set line. is_space c)
       \<and> (\<forall>n\<in>set child_names. \<not> bound n s)
       \<and> (rv = 0 \<longrightarrow> (\<forall>m\<in>set (butlast (split_ws line)).
              imp m \<noteq> Import_abort \<and> (imp m = Loaded \<longrightarrow> m \<notin> set child_names)))"
  then have ne: "split_ws line \<noteq> []"
    by (simp add: split_ws_Nil_iff)
  then have lb: "loop_body imp (line, rv) s =
      after_parse imp (butlast (split_ws line)) (last (split_ws line)) rv s"
    by (simp add: loop_body_def Let_def)
  from a have c: "\<forall>n\<in>set child_names. \<not> bound n s"
    and b: "rv = 0 \<longrightarrow> (\<forall>m\<in>set (butlast (split_ws line)).
              imp m \<noteq> Import_abort \<and> (imp m = Loaded \<longrightarrow> m \<notin> set child_names))"
    by blast+
  from after_parse_benign [OF c b, of "last (split_ws line)"]
  show "\<exists>s'. loop_body imp (line, rv) s = Inr s'
         \<and> cl_signal s' = last (split_ws line)
         \<and> cl_imported s' = cl_imported s @
             (if rv = 0 then filter (\<lambda>m. imp m = Loaded) (butlast (split_ws line)) else [])"
    unfolding lb .
qed


theorem control_line_needs_a_token_witness:
  "loop_body imp_all (''  '', 0) cache_init = Inl (IndexError, cache_init)
   \<and> cache_loop imp_all [(''  '', 0), (''go'', 0)] = Crashed IndexError (loop_head cache_init)
   \<and> loop_body imp_all (''m1 m2 cache'', 0) cache_init =
       after_parse imp_all [''m1'', ''m2''] ''cache'' 0 cache_init
   \<and> (\<exists>s'. loop_body imp_all (''m1 m2 cache'', 0) cache_init = Inr s'
         \<and> cl_signal s' = ''cache''
         \<and> cl_imported s' = [''m1'', ''m2''])"
proof -
  have blank: "\<forall>c\<in>set ''  ''. is_space c"
    by (simp add: is_space_def)
  have toks: "\<not> (\<forall>c\<in>set ''m1 m2 cache''. is_space c)"
    by (simp add: is_space_def)
  have sp: "split_ws ''m1 m2 cache'' = [''m1'', ''m2'', ''cache'']"
    by (simp add: split_ws_def is_space_def)
  have clean: "\<forall>n\<in>set child_names. \<not> bound n cache_init"
    by (simp add: bound_def cache_init_def)
  have mods: "(0::int) = 0 \<longrightarrow> (\<forall>m\<in>set (butlast (split_ws ''m1 m2 cache'')).
      imp_all m \<noteq> Import_abort \<and> (imp_all m = Loaded \<longrightarrow> m \<notin> set child_names))"
    unfolding sp by (simp add: imp_all_def child_names_def)
  have a: "loop_body imp_all (''  '', 0) cache_init = Inl (IndexError, cache_init)
      \<and> cache_loop imp_all [(''  '', 0), (''go'', 0)] = Crashed IndexError (loop_head cache_init)"
    using control_line_needs_a_token [of "''  ''" imp_all 0 cache_init "[(''go'', 0)]"] blank
    by blast
  have b: "loop_body imp_all (''m1 m2 cache'', 0) cache_init =
        after_parse imp_all (butlast (split_ws ''m1 m2 cache''))
          (last (split_ws ''m1 m2 cache'')) 0 cache_init"
    using control_line_needs_a_token [of "''m1 m2 cache''" imp_all 0 cache_init "[]"] toks
    by blast
  have c: "\<exists>s'. loop_body imp_all (''m1 m2 cache'', 0) cache_init = Inr s'
         \<and> cl_signal s' = last (split_ws ''m1 m2 cache'')
         \<and> cl_imported s' = cl_imported cache_init @
             (if (0::int) = 0
              then filter (\<lambda>m. imp_all m = Loaded) (butlast (split_ws ''m1 m2 cache''))
              else [])"
    using control_line_needs_a_token [of "''m1 m2 cache''" imp_all 0 cache_init "[]"]
      toks clean mods
    by blast
  have b': "loop_body imp_all (''m1 m2 cache'', 0) cache_init =
       after_parse imp_all [''m1'', ''m2''] ''cache'' 0 cache_init"
    using b unfolding sp by simp
  have c': "\<exists>s'. loop_body imp_all (''m1 m2 cache'', 0) cache_init = Inr s'
         \<and> cl_signal s' = ''cache''
         \<and> cl_imported s' = [''m1'', ''m2'']"
    using c unfolding sp by (simp add: cache_init_def imp_all_def)
  from a b' c' show ?thesis by blast
qed

text \<open>
  A module that loads under the name \<^verbatim>\<open>print\<close> takes that name over: the next
  \<^verbatim>\<open>print\<close> raises \<^verbatim>\<open>TypeError\<close> outside the \<^verbatim>\<open>try\<close> statement, and the rest of the batch
  is not attempted.
\<close>

lemma loaded_print_module_breaks_loop:
  "loop_body imp_all (''good_a print good_c go'', 0) (loop_head cache_init) =
     Inl (TypeError,
       \<lparr>cl_r = - 1, cl_signal = ''go'', cl_count = 0, cl_imported = [''good_a'', ''print''],
        cl_out = [''LISTENING'', ''importing: good_a'', ''importing: print''],
        cl_redirects = 1, cl_resets = 0\<rparr>)"
  by (simp add: cache_init_def loop_head_def loop_body_def after_parse_def child_block_def
      and_then_def redirect_def py_print_def flush_def import_one_def bound_def split_ws_def
      is_space_def emit_def imp_all_def)

text \<open>
  Claim C7, as amended. When no import raises an exception outside \<^verbatim>\<open>Exception\<close> and no
  module that loads carries a name the block looks up, the modules are imported in
  order, an import that raises is caught and logged, every module is attempted (one
  \<^verbatim>\<open>importing\<close> line each, a failure line after each that raised), the modules that
  loaded are bound, and the signal line is reached. For the modules \<^verbatim>\<open>good_a\<close>,
  \<^verbatim>\<open>missing_b\<close>, \<^verbatim>\<open>good_c\<close> and the signal \<^verbatim>\<open>go\<close>, with \<^verbatim>\<open>missing_b\<close> not
  found: \<^verbatim>\<open>good_a\<close> and \<^verbatim>\<open>good_c\<close> are bound, the failure of \<^verbatim>\<open>missing_b\<close> is logged
  and the signal line is printed.
\<close>

theorem import_step_tolerates_exceptions:
  "((\<forall>n\<in>set child_names. \<not> bound n s)
     \<and> (\<forall>m\<in>set mods. imp m \<noteq> Import_abort \<and> (imp m = Loaded \<longrightarrow> m \<notin> set child_names)) \<longrightarrow>
      child_block imp mods s =
        Inr (s\<lparr>cl_imported := cl_imported s @ filter (\<lambda>m. imp m = Loaded) mods,
               cl_out := cl_out s @ import_log imp mods @ [''signal: '' @ cl_signal s],
               cl_redirects := Suc (cl_redirects s)\<rparr>))
   \<and> loop_body imp_example (''good_a missing_b good_c go'', 0) (loop_head cache_init) =
       Inr \<lparr>cl_r = - 1, cl_signal = ''go'', cl_count = 1,
         cl_imported = [''good_a'', ''good_c''],
         cl_out = [''LISTENING'', ''importing: good_a'', ''importing: missing_b'',
           ''failed to import missing_b: No module named '' @ [CHR 0x27] @ ''missing_b''
             @ [CHR 0x27],
           ''importing: good_c'', ''signal: go'', []],
         cl_redirects = 1, cl_resets = 0\<rparr>"
proof (intro conjI impI)
  assume "(\<forall>n\<in>set child_names. \<not> bound n s)
     \<and> (\<forall>m\<in>set mods. imp m \<noteq> Import_abort \<and> (imp m = Loaded \<longrightarrow> m \<notin> set child_names))"
  then show "child_block imp mods s =
        Inr (s\<lparr>cl_imported := cl_imported s @ filter (\<lambda>m. imp m = Loaded) mods,
               cl_out := cl_out s @ import_log imp mods @ [''signal: '' @ cl_signal s],
               cl_redirects := Suc (cl_redirects s)\<rparr>)"
    using child_block_benign by blast
next
  show "loop_body imp_example (''good_a missing_b good_c go'', 0) (loop_head cache_init) =
       Inr \<lparr>cl_r = - 1, cl_signal = ''go'', cl_count = 1,
         cl_imported = [''good_a'', ''good_c''],
         cl_out = [''LISTENING'', ''importing: good_a'', ''importing: missing_b'',
           ''failed to import missing_b: No module named '' @ [CHR 0x27] @ ''missing_b''
             @ [CHR 0x27],
           ''importing: good_c'', ''signal: go'', []],
         cl_redirects = 1, cl_resets = 0\<rparr>"
    by (simp add: cache_init_def loop_head_def loop_body_def after_parse_def child_block_def
        and_then_def redirect_def py_print_def flush_def import_one_def failed_line_def
        bound_def split_ws_def is_space_def emit_def imp_example_def)
qed

theorem import_step_tolerates_exceptions_witness:
  "child_block imp_example [''good_a'', ''missing_b'', ''good_c''] cache_init =
     Inr (cache_init\<lparr>cl_imported := cl_imported cache_init @
              filter (\<lambda>m. imp_example m = Loaded) [''good_a'', ''missing_b'', ''good_c''],
            cl_out := cl_out cache_init @
              import_log imp_example [''good_a'', ''missing_b'', ''good_c''] @
              [''signal: '' @ cl_signal cache_init],
            cl_redirects := Suc (cl_redirects cache_init)\<rparr>)"
proof -
  have clean: "\<forall>n\<in>set child_names. \<not> bound n cache_init"
    by (simp add: bound_def cache_init_def)
  have mods: "\<forall>m\<in>set [''good_a'', ''missing_b'', ''good_c''].
      imp_example m \<noteq> Import_abort \<and> (imp_example m = Loaded \<longrightarrow> m \<notin> set child_names)"
    by (simp add: imp_example_def child_names_def)
  from import_step_tolerates_exceptions
    [of cache_init "[''good_a'', ''missing_b'', ''good_c'']" imp_example] clean mods
  show ?thesis by blast
qed

text \<open>
  The claim as first stated fails when the import of \<^verbatim>\<open>missing_b\<close> raises
  \<^verbatim>\<open>SystemExit\<close>: \<^verbatim>\<open>except Exception\<close> does not catch it, \<^verbatim>\<open>good_c\<close> is never
  attempted and no signal line is printed.
\<close>

theorem import_abort_stops_batch:
  "loop_body imp_exits (''good_a missing_b good_c go'', 0) (loop_head cache_init) =
     Inl (BaseException,
       \<lparr>cl_r = - 1, cl_signal = ''go'', cl_count = 0, cl_imported = [''good_a''],
        cl_out = [''LISTENING'', ''importing: good_a'', ''importing: missing_b''],
        cl_redirects = 1, cl_resets = 0\<rparr>)"
  by (simp add: cache_init_def loop_head_def loop_body_def after_parse_def child_block_def
      and_then_def redirect_def py_print_def flush_def import_one_def bound_def split_ws_def
      is_space_def emit_def imp_exits_def)

section \<open>Properties of the fork server\<close>

lemma run_sched_parent_step:
  "run_sched (True # sch) (e # ps) cs = Some t \<Longrightarrow>
     (\<exists>t'. t = e # t' \<and> run_sched sch ps cs = Some t' \<and> (is_waitpid e \<longrightarrow> cs = []))"
  by (cases e) (auto simp: is_waitpid_def split: if_splits)

lemma waits_for_child:
  "run_sched sch ps cs = Some t \<Longrightarrow> b \<notin> set cs \<Longrightarrow> a \<in> set cs \<Longrightarrow>
   (\<exists>e \<in> set (takeWhile (\<lambda>e. e \<noteq> b) ps). is_waitpid e) \<Longrightarrow> b \<in> set t \<Longrightarrow>
   a \<in> set (takeWhile (\<lambda>e. e \<noteq> b) t)"
proof (induction sch arbitrary: ps cs t)
  case Nil
  then show ?case by simp
next
  case (Cons s sch)
  note run = Cons.prems(1) and b_cs = Cons.prems(2) and a_cs = Cons.prems(3)
    and wait = Cons.prems(4) and b_t = Cons.prems(5) and IH = Cons.IH
  show ?case
  proof (cases s)
    case True
    show ?thesis
    proof (cases ps)
      case Nil
      with wait show ?thesis by simp
    next
      case parent: (Cons e ps')
      from run True parent have "run_sched (True # sch) (e # ps') cs = Some t"
        by simp
      then obtain t' where
        t: "t = e # t'" and r: "run_sched sch ps' cs = Some t'" and w: "is_waitpid e \<longrightarrow> cs = []"
        using run_sched_parent_step by blast
      from a_cs w have nw: "\<not> is_waitpid e" by auto
      from wait parent have eb: "e \<noteq> b" by (auto split: if_splits)
      with wait parent nw have "\<exists>e \<in> set (takeWhile (\<lambda>e. e \<noteq> b) ps'). is_waitpid e"
        by auto
      moreover from b_t t eb have "b \<in> set t'" by auto
      ultimately have "a \<in> set (takeWhile (\<lambda>e. e \<noteq> b) t')"
        using IH [OF r b_cs a_cs] by blast
      with t eb show ?thesis by simp
    qed
  next
    case False
    show ?thesis
    proof (cases cs)
      case Nil
      with a_cs show ?thesis by simp
    next
      case child: (Cons e cs')
      from run False child obtain t' where
        t: "t = e # t'" and r: "run_sched sch ps cs' = Some t'"
        by auto
      from b_cs child have eb: "e \<noteq> b" and nb: "b \<notin> set cs'" by auto
      show ?thesis
      proof (cases "a = e")
        case True
        with t eb show ?thesis by simp
      next
        case False
        with a_cs child have "a \<in> set cs'" by auto
        moreover from b_t t eb have "b \<in> set t'" by auto
        ultimately have "a \<in> set (takeWhile (\<lambda>e. e \<noteq> b) t')"
          using IH [OF r nb _ wait] by blast
        with t eb show ?thesis by simp
      qed
    qed
  qed
qed


lemma replies_append [simp]: "replies (xs @ ys) = replies xs @ replies ys"
  by (induction xs rule: replies.induct) auto

lemma forks_append [simp]: "forks (xs @ ys) = forks xs @ forks ys"
  by (induction xs rule: forks.induct) auto

lemma child_branch_not_Returned: "fst (child_branch c l r m p) \<noteq> Returned"
  by (auto simp: child_branch_def Let_def split: prod.splits result.splits)

lemma parent_branch_Returned:
  "parent_branch c pid r m p = (Returned, p') \<Longrightarrow>
     \<exists>w. pack_I pid = Inr w \<and>
       p' = close_fd (client c) (sys (Sendall (client c) w)
              (sys (Waitpid pid) (close_fd m (close_fd r p))))"
  by (auto simp: parent_branch_def Let_def split: sum.splits if_splits)

lemma handle_conn_Returned:
  "handle_conn c p = (Returned, p') \<Longrightarrow>
     \<exists>l r m pid w. file_sock p = Some l \<and> fds c = [r, m] \<and> fork_res c = Inr pid \<and> pid \<noteq> 0
       \<and> pack_I pid = Inr w
       \<and> p' = close_fd (client c) (sys (Sendall (client c) w)
              (sys (Waitpid pid) (close_fd m (close_fd r
                (sys (Fork pid) (sys (Recv_fds [r, m])
                  ((sys (Accept (client c)) (open_fd (client c) p))
                     \<lparr>open_fds := open_fds (sys (Accept (client c)) (open_fd (client c) p)) \<union> {r, m}\<rparr>)))))))"
proof -
  assume h: "handle_conn c p = (Returned, p')"
  then obtain l where l: "file_sock p = Some l"
    by (auto simp: handle_conn_def split: option.splits)
  from h l obtain r m where rm: "fds c = [r, m]"
    by (auto simp: handle_conn_def Let_def split: list.splits)
  from h l rm obtain pid where pid: "fork_res c = Inr pid"
    by (auto simp: handle_conn_def Let_def split: sum.splits)
  have nz: "pid \<noteq> 0"
  proof
    assume "pid = 0"
    with h l rm pid have "fst (child_branch c l r m (sys (Fork 0) (sys (Recv_fds [r, m])
                  ((sys (Accept (client c)) (open_fd (client c) p))
                     \<lparr>open_fds := open_fds (sys (Accept (client c)) (open_fd (client c) p)) \<union> {r, m}\<rparr>)))) = Returned"
      by (simp add: handle_conn_def Let_def)
    then show False using child_branch_not_Returned by blast
  qed
  from h l rm pid nz have "parent_branch c pid r m (sys (Fork pid) (sys (Recv_fds [r, m])
                  ((sys (Accept (client c)) (open_fd (client c) p))
                     \<lparr>open_fds := open_fds (sys (Accept (client c)) (open_fd (client c) p)) \<union> {r, m}\<rparr>))) = (Returned, p')"
    by (simp add: handle_conn_def Let_def)
  from parent_branch_Returned [OF this] l rm pid nz show ?thesis by auto
qed


lemma handle_conn_Returned_effect:
  assumes "handle_conn c p = (Returned, p')"
  shows "\<exists>r m pid w. fds c = [r, m] \<and> fork_res c = Inr pid \<and> pid \<noteq> 0 \<and> pack_I pid = Inr w
       \<and> trace p' = trace p @ [Accept (client c), Recv_fds [r, m], Fork pid, Close r, Close m,
            Waitpid pid, Sendall (client c) w, Close (client c)]
       \<and> open_fds p' = (insert (client c) (open_fds p) \<union> {r, m}) - {r} - {m} - {client c}
       \<and> file_sock p' = file_sock p"
  using handle_conn_Returned [OF assms]
  by (auto simp: sys_def close_fd_def open_fd_def)

lemma pack_I_uint: "pack_I n = Inr w \<Longrightarrow> w = word_of_int n \<and> uint w = n"
  by (auto simp: pack_I_def uint_word_of_int take_bit_int_eq_self split: if_splits)

text \<open>
  Claim C2, as amended. For every request the parent handles to the end, the 4-byte
  unsigned integer it sends is the value its own \<^verbatim>\<open>os.fork()\<close> returned, that is the pid
  of the immediate child; that fork is the only one the parent makes for the request, so
  the pid of the grandchild, which only the child learns, is not available to it.
\<close>

theorem reply_is_pid_of_own_fork:
  "handle_conn c p = (Returned, p') \<Longrightarrow>
     \<exists>pid. fork_res c = Inr pid \<and> pid \<noteq> 0
       \<and> replies (trace p') = replies (trace p) @ [(client c, word_of_int pid)]
       \<and> uint (word_of_int pid :: 32 word) = pid
       \<and> forks (trace p') = forks (trace p) @ [pid]"
proof -
  assume "handle_conn c p = (Returned, p')"
  from handle_conn_Returned_effect [OF this] obtain r m pid w where
    eff: "fds c = [r, m] \<and> fork_res c = Inr pid \<and> pid \<noteq> 0 \<and> pack_I pid = Inr w
       \<and> trace p' = trace p @ [Accept (client c), Recv_fds [r, m], Fork pid, Close r, Close m,
            Waitpid pid, Sendall (client c) w, Close (client c)]
       \<and> open_fds p' = (insert (client c) (open_fds p) \<union> {r, m}) - {r} - {m} - {client c}
       \<and> file_sock p' = file_sock p"
    by (elim exE)
  then have f: "fork_res c = Inr pid" and nz: "pid \<noteq> 0" and w: "pack_I pid = Inr w"
    and t: "trace p' = trace p @ [Accept (client c), Recv_fds [r, m], Fork pid, Close r, Close m,
            Waitpid pid, Sendall (client c) w, Close (client c)]"
    by simp_all
  have w': "w = word_of_int pid"
    using pack_I_uint [OF w] by (rule conjunct1)
  have "uint w = pid"
    using pack_I_uint [OF w] by (rule conjunct2)
  then have u: "uint (word_of_int pid :: 32 word) = pid"
    unfolding w' .
  have "replies (trace p') = replies (trace p) @ [(client c, word_of_int pid)]"
    unfolding t w' by simp
  moreover have "forks (trace p') = forks (trace p) @ [pid]"
    unfolding t by simp
  ultimately show ?thesis
    using f nz u by blast
qed

theorem reply_is_pid_of_own_fork_witness:
  "\<exists>pid. fork_res conn_ok = Inr pid \<and> pid \<noteq> 0
       \<and> replies (trace (snd (handle_conn conn_ok server0))) =
           replies (trace server0) @ [(client conn_ok, word_of_int pid)]
       \<and> uint (word_of_int pid :: 32 word) = pid
       \<and> forks (trace (snd (handle_conn conn_ok server0))) = forks (trace server0) @ [pid]"
proof -
  have "fst (handle_conn conn_ok server0) = Returned"
    by (simp add: handle_conn_def parent_branch_def conn_ok_def server0_def sys_def
        close_fd_def open_fd_def pack_I_def Let_def)
  then have "handle_conn conn_ok server0 = (Returned, snd (handle_conn conn_ok server0))"
    by (metis prod.collapse)
  from reply_is_pid_of_own_fork [OF this] show ?thesis .
qed

theorem reply_is_not_grandchild_pid:
  "replies (trace (snd (handle_conn conn_ok server0))) = [(4, 100)]
   \<and> forks (trace (snd (handle_conn (conn_ok\<lparr>fork_res := Inr 0\<rparr>) server0))) = [0, 101]
   \<and> fst (handle_conn (conn_ok\<lparr>fork_res := Inr 0\<rparr>) server0) = Exited 0"
  by (simp add: handle_conn_def parent_branch_def child_branch_def start_sock_container_def
      conn_ok_def ssc_ok_def server0_def sys_def close_fd_def open_fd_def pack_I_def Let_def)


lemma handle_conn_wrong_count:
  "file_sock p = Some l \<Longrightarrow> length (fds c) \<noteq> 2 \<Longrightarrow>
     handle_conn c p = (Raised ValueError,
       sys (Recv_fds (fds c))
         ((sys (Accept (client c)) (open_fd (client c) p))
            \<lparr>open_fds := open_fds (sys (Accept (client c)) (open_fd (client c) p)) \<union> set (fds c)\<rparr>))"
proof -
  assume l: "file_sock p = Some l" and n: "length (fds c) \<noteq> 2"
  from n have "\<And>r m. fds c \<noteq> [r, m]"
    by auto
  with l show ?thesis
    by (simp add: handle_conn_def Let_def split: list.splits)
qed

text \<open>
  Claim C3, as amended. When a connection delivers a number of descriptors other than
  two, the unpacking raises \<^verbatim>\<open>ValueError\<close>; nothing in \<^verbatim>\<open>fork_server\<close> catches it, so
  the accept loop ends with that exception whatever connections follow: no reply is
  sent, the connection is not closed and no further connection is accepted.
\<close>

theorem wrong_fd_count_ends_accept_loop:
  "file_sock p = Some l \<Longrightarrow> length (fds c) \<noteq> 2 \<Longrightarrow>
     \<exists>p'. fork_server (c # cs) p = (Raised ValueError, p')
       \<and> trace p' = trace p @ [Accept (client c), Recv_fds (fds c)]
       \<and> replies (trace p') = replies (trace p)
       \<and> client c \<in> open_fds p'"
proof -
  assume l: "file_sock p = Some l" and n: "length (fds c) \<noteq> 2"
  let ?p' = "sys (Recv_fds (fds c))
         ((sys (Accept (client c)) (open_fd (client c) p))
            \<lparr>open_fds := open_fds (sys (Accept (client c)) (open_fd (client c) p)) \<union> set (fds c)\<rparr>)"
  have "fork_server (c # cs) p = (Raised ValueError, ?p')"
    by (simp add: handle_conn_wrong_count [OF l n])
  moreover have "trace ?p' = trace p @ [Accept (client c), Recv_fds (fds c)]"
    by (simp add: sys_def open_fd_def)
  moreover from this have "replies (trace ?p') = replies (trace p)"
    by simp
  moreover have "client c \<in> open_fds ?p'"
    by (simp add: sys_def open_fd_def)
  ultimately show ?thesis by blast
qed

theorem wrong_fd_count_ends_accept_loop_witness:
  "\<exists>p'. fork_server (conn_ok\<lparr>fds := [5]\<rparr> # [conn_ok]) server0 = (Raised ValueError, p')
       \<and> trace p' = trace server0 @ [Accept (client (conn_ok\<lparr>fds := [5]\<rparr>)), Recv_fds (fds (conn_ok\<lparr>fds := [5]\<rparr>))]
       \<and> replies (trace p') = replies (trace server0)
       \<and> client (conn_ok\<lparr>fds := [5]\<rparr>) \<in> open_fds p'"
proof -
  have l: "file_sock server0 = Some 3"
    by (simp add: server0_def)
  have n: "length (fds (conn_ok\<lparr>fds := [5]\<rparr>)) \<noteq> 2"
    by simp
  from wrong_fd_count_ends_accept_loop [OF l n] show ?thesis .
qed

theorem wrong_fd_count_stops_server:
  "fst (fork_server [conn_ok\<lparr>fds := [5]\<rparr>, conn_ok] server0) = Raised ValueError
   \<and> trace (snd (fork_server [conn_ok\<lparr>fds := [5]\<rparr>, conn_ok] server0)) = [Accept 4, Recv_fds [5]]
   \<and> fst (fork_server [conn_ok, conn_ok] server0) = Waiting"
  by (simp add: handle_conn_def parent_branch_def conn_ok_def server0_def sys_def
      close_fd_def open_fd_def pack_I_def Let_def)

lemma run_bootstrap_not_Waiting: "fst (run_bootstrap env p) \<noteq> Waiting"
  by (simp add: run_bootstrap_def Let_def split: sum.splits exec_result.splits)

lemma start_sock_container_not_Waiting: "fst (start_sock_container env p) \<noteq> Waiting"
  by (simp add: start_sock_container_def Let_def run_bootstrap_not_Waiting split: sum.splits)

lemma after_ssc_not_Waiting:
  "fst (case start_sock_container env q of
          (Returned, p5) \<Rightarrow> (Exited 1, sys (Exit 1) p5) | (r, p5) \<Rightarrow> (r, p5)) \<noteq> Waiting"
proof (cases "start_sock_container env q")
  case (Pair r p5)
  with start_sock_container_not_Waiting [of env q] have "r \<noteq> Waiting"
    by simp
  with Pair show ?thesis
    by (cases r) simp_all
qed

lemma child_branch_not_Waiting: "fst (child_branch c l r m p) \<noteq> Waiting"
  by (simp add: child_branch_def Let_def after_ssc_not_Waiting)

lemma parent_branch_not_Waiting: "fst (parent_branch c pid r m p) \<noteq> Waiting"
  by (simp add: parent_branch_def Let_def split: sum.splits)

lemma handle_conn_not_Waiting: "fst (handle_conn c p) \<noteq> Waiting"
  by (simp add: handle_conn_def Let_def child_branch_not_Waiting parent_branch_not_Waiting
      split: option.splits list.splits sum.splits)

lemma fork_server_Waiting_step:
  "fork_server (c # cs) p = (Waiting, p') \<Longrightarrow>
     \<exists>q. handle_conn c p = (Returned, q) \<and> fork_server cs q = (Waiting, p')"
proof (cases "handle_conn c p")
  case (Pair r q)
  assume h: "fork_server (c # cs) p = (Waiting, p')"
  from handle_conn_not_Waiting [of c p] Pair have nw: "r \<noteq> Waiting"
    by simp
  show ?thesis
  proof (cases r)
    case Returned
    with h Pair show ?thesis by simp
  next
    case (Raised e)
    with h Pair show ?thesis by simp
  next
    case (Exited n)
    with h Pair show ?thesis by simp
  next
    case Running
    with h Pair show ?thesis by simp
  next
    case Waiting
    with nw show ?thesis by simp
  qed
qed

lemma handle_conn_open_fds:
  assumes "handle_conn c p = (Returned, p')"
    and "client c \<notin> open_fds p" and "set (fds c) \<inter> open_fds p = {}"
  shows "open_fds p' = open_fds p"
proof -
  from handle_conn_Returned_effect [OF assms(1)] obtain r m pid w where
    eff: "fds c = [r, m] \<and> fork_res c = Inr pid \<and> pid \<noteq> 0 \<and> pack_I pid = Inr w
       \<and> trace p' = trace p @ [Accept (client c), Recv_fds [r, m], Fork pid, Close r, Close m,
            Waitpid pid, Sendall (client c) w, Close (client c)]
       \<and> open_fds p' = (insert (client c) (open_fds p) \<union> {r, m}) - {r} - {m} - {client c}
       \<and> file_sock p' = file_sock p"
    by (elim exE)
  then have f: "fds c = [r, m]"
    and o: "open_fds p' = (insert (client c) (open_fds p) \<union> {r, m}) - {r} - {m} - {client c}"
    by simp_all
  from assms(3) f have "r \<notin> open_fds p" "m \<notin> open_fds p"
    by auto
  with assms(2) o show ?thesis
    by auto
qed

lemma fork_server_open_fds:
  "fork_server cs p = (Waiting, p') \<Longrightarrow>
   \<forall>c\<in>set cs. client c \<notin> open_fds p \<and> set (fds c) \<inter> open_fds p = {} \<Longrightarrow>
   open_fds p' = open_fds p"
proof (induction cs arbitrary: p)
  case Nil
  then show ?case by (simp split: option.splits)
next
  case (Cons c cs)
  from fork_server_Waiting_step [OF Cons.prems(1)] obtain q where
    q: "handle_conn c p = (Returned, q)" and rest: "fork_server cs q = (Waiting, p')"
    by blast
  from Cons.prems(2) have "client c \<notin> open_fds p" "set (fds c) \<inter> open_fds p = {}"
    by simp_all
  with q have same: "open_fds q = open_fds p"
    by (rule handle_conn_open_fds)
  with Cons.prems(2) have "\<forall>c\<in>set cs. client c \<notin> open_fds q \<and> set (fds c) \<inter> open_fds q = {}"
    by simp
  with rest have "open_fds p' = open_fds q"
    by (rule Cons.IH)
  with same show ?case by simp
qed


lemma fork_server_replies:
  "fork_server cs p = (Waiting, p') \<Longrightarrow>
   length (replies (trace p')) = length (replies (trace p)) + length cs"
proof (induction cs arbitrary: p)
  case Nil
  then show ?case by (simp split: option.splits)
next
  case (Cons c cs)
  from fork_server_Waiting_step [OF Cons.prems] obtain q where
    q: "handle_conn c p = (Returned, q)" and rest: "fork_server cs q = (Waiting, p')"
    by blast
  from handle_conn_Returned_effect [OF q] obtain r m pid w where
    eff: "fds c = [r, m] \<and> fork_res c = Inr pid \<and> pid \<noteq> 0 \<and> pack_I pid = Inr w
       \<and> trace q = trace p @ [Accept (client c), Recv_fds [r, m], Fork pid, Close r, Close m,
            Waitpid pid, Sendall (client c) w, Close (client c)]
       \<and> open_fds q = (insert (client c) (open_fds p) \<union> {r, m}) - {r} - {m} - {client c}
       \<and> file_sock q = file_sock p"
    by (elim exE)
  then have "trace q = trace p @ [Accept (client c), Recv_fds [r, m], Fork pid, Close r, Close m,
            Waitpid pid, Sendall (client c) w, Close (client c)]"
    by simp
  then have "length (replies (trace q)) = length (replies (trace p)) + 1"
    by simp
  with Cons.IH [OF rest] show ?case by simp
qed

text \<open>
  Claim C6. In the parent the two calls after the fork close the root descriptor and
  the cgroup descriptor, and neither is open afterwards. When a server has handled N
  requests and waits for the next, having sent N replies, its set of open descriptors is
  the one it started with (the descriptors the kernel hands out being new ones).
\<close>

theorem parent_closes_received_descriptors:
  "(handle_conn c p = (Returned, p') \<longrightarrow>
      (\<exists>r m pid w. fds c = [r, m]
         \<and> trace p' = trace p @ [Accept (client c), Recv_fds [r, m], Fork pid, Close r, Close m,
             Waitpid pid, Sendall (client c) w, Close (client c)]
         \<and> r \<notin> open_fds p' \<and> m \<notin> open_fds p'))
   \<and> (fork_server cs q = (Waiting, q')
        \<and> (\<forall>c\<in>set cs. client c \<notin> open_fds q \<and> set (fds c) \<inter> open_fds q = {}) \<longrightarrow>
      open_fds q' = open_fds q
      \<and> length (replies (trace q')) = length (replies (trace q)) + length cs)"
proof (intro conjI impI)
  assume h: "handle_conn c p = (Returned, p')"
  from handle_conn_Returned_effect [OF h] obtain r m pid w where
    eff: "fds c = [r, m] \<and> fork_res c = Inr pid \<and> pid \<noteq> 0 \<and> pack_I pid = Inr w
       \<and> trace p' = trace p @ [Accept (client c), Recv_fds [r, m], Fork pid, Close r, Close m,
            Waitpid pid, Sendall (client c) w, Close (client c)]
       \<and> open_fds p' = (insert (client c) (open_fds p) \<union> {r, m}) - {r} - {m} - {client c}
       \<and> file_sock p' = file_sock p"
    by (elim exE)
  then have o: "open_fds p' = (insert (client c) (open_fds p) \<union> {r, m}) - {r} - {m} - {client c}"
    by simp
  have "r \<notin> open_fds p'" "m \<notin> open_fds p'"
    unfolding o by auto
  with eff have "fds c = [r, m]
         \<and> trace p' = trace p @ [Accept (client c), Recv_fds [r, m], Fork pid, Close r, Close m,
             Waitpid pid, Sendall (client c) w, Close (client c)]
         \<and> r \<notin> open_fds p' \<and> m \<notin> open_fds p'"
    by simp
  then show "\<exists>r m pid w. fds c = [r, m]
         \<and> trace p' = trace p @ [Accept (client c), Recv_fds [r, m], Fork pid, Close r, Close m,
             Waitpid pid, Sendall (client c) w, Close (client c)]
         \<and> r \<notin> open_fds p' \<and> m \<notin> open_fds p'"
    by (intro exI)
next
  assume a: "fork_server cs q = (Waiting, q')
        \<and> (\<forall>c\<in>set cs. client c \<notin> open_fds q \<and> set (fds c) \<inter> open_fds q = {})"
  then show "open_fds q' = open_fds q"
    using fork_server_open_fds by blast
next
  assume a: "fork_server cs q = (Waiting, q')
        \<and> (\<forall>c\<in>set cs. client c \<notin> open_fds q \<and> set (fds c) \<inter> open_fds q = {})"
  then show "length (replies (trace q')) = length (replies (trace q)) + length cs"
    using fork_server_replies by blast
qed

theorem parent_closes_received_descriptors_witness:
  "(\<exists>r m pid w. fds conn_ok = [r, m]
         \<and> trace (snd (handle_conn conn_ok server0)) =
             trace server0 @ [Accept (client conn_ok), Recv_fds [r, m], Fork pid, Close r, Close m,
               Waitpid pid, Sendall (client conn_ok) w, Close (client conn_ok)]
         \<and> r \<notin> open_fds (snd (handle_conn conn_ok server0))
         \<and> m \<notin> open_fds (snd (handle_conn conn_ok server0)))
   \<and> open_fds (snd (fork_server [conn_ok, conn_ok] server0)) = open_fds server0
   \<and> length (replies (trace (snd (fork_server [conn_ok, conn_ok] server0)))) =
       length (replies (trace server0)) + length [conn_ok, conn_ok]"
proof -
  have "fst (handle_conn conn_ok server0) = Returned"
    by (simp add: handle_conn_def parent_branch_def conn_ok_def server0_def sys_def
        close_fd_def open_fd_def pack_I_def Let_def)
  then have h: "handle_conn conn_ok server0 = (Returned, snd (handle_conn conn_ok server0))"
    by (metis prod.collapse)
  have "fst (fork_server [conn_ok, conn_ok] server0) = Waiting"
    by (simp add: handle_conn_def parent_branch_def conn_ok_def server0_def sys_def
        close_fd_def open_fd_def pack_I_def Let_def)
  then have f: "fork_server [conn_ok, conn_ok] server0 =
      (Waiting, snd (fork_server [conn_ok, conn_ok] server0))"
    by (metis prod.collapse)
  have fresh: "\<forall>c\<in>set [conn_ok, conn_ok].
      client c \<notin> open_fds server0 \<and> set (fds c) \<inter> open_fds server0 = {}"
    by (simp add: conn_ok_def server0_def)
  from parent_closes_received_descriptors
    [of conn_ok server0 "snd (handle_conn conn_ok server0)" "[conn_ok, conn_ok]" server0
      "snd (fork_server [conn_ok, conn_ok] server0)"]
    h f fresh
  show ?thesis by blast
qed


lemma run_sched_set:
  "run_sched sch ps cs = Some t \<Longrightarrow> set t \<subseteq> set ps \<union> set cs"
proof (induction sch arbitrary: ps cs t)
  case Nil
  then show ?case by simp
next
  case (Cons s sch)
  note run = Cons.prems and IH = Cons.IH
  show ?case
  proof (cases s)
    case True
    show ?thesis
    proof (cases ps)
      case Nil
      with run True show ?thesis by simp
    next
      case parent: (Cons e ps')
      from run True parent have "run_sched (True # sch) (e # ps') cs = Some t"
        by simp
      then obtain t' where t: "t = e # t'" and r: "run_sched sch ps' cs = Some t'"
        using run_sched_parent_step by blast
      from IH [OF r] t parent show ?thesis by auto
    qed
  next
    case False
    show ?thesis
    proof (cases cs)
      case Nil
      with run False show ?thesis by simp
    next
      case child: (Cons e cs')
      from run False child obtain t' where
        t: "t = e # t'" and r: "run_sched sch ps cs' = Some t'"
        by auto
      from IH [OF r] t child show ?thesis by auto
    qed
  qed
qed

lemma parent_events_eq:
  "parent_events c pid r m p =
     [Close r, Close m, Waitpid pid] @
     (case pack_I pid of
        Inl e \<Rightarrow> []
      | Inr w \<Rightarrow> if send_ok c then [Sendall (client c) w, Close (client c)] else [])"
  by (simp add: parent_events_def parent_branch_def Let_def sys_def close_fd_def
      split: sum.splits)

lemma run_bootstrap_trace:
  "\<exists>evs. trace (snd (run_bootstrap env q)) = trace q @ evs \<and> (\<forall>d w. Sendall d w \<notin> set evs)"
  by (simp add: run_bootstrap_def Let_def sys_def split: sum.splits exec_result.splits)

lemma start_sock_container_trace:
  "\<exists>evs. trace (snd (start_sock_container env q)) = trace q @ evs
     \<and> (\<forall>d w. Sendall d w \<notin> set evs)"
proof -
  have rb: "\<And>q. \<exists>evs. trace (snd (run_bootstrap env q)) = trace q @ evs
      \<and> (\<forall>d w. Sendall d w \<notin> set evs)"
    by (rule run_bootstrap_trace)
  show ?thesis
  proof (cases "unshare_ret env = 0")
    case False
    then show ?thesis
      by (simp add: start_sock_container_def Let_def sys_def)
  next
    case u: True
    show ?thesis
    proof (cases "bind_res env")
      case (Inl e)
      with u show ?thesis
        by (simp add: start_sock_container_def Let_def sys_def)
    next
      case b: (Inr s)
      show ?thesis
      proof (cases "fork2_res env")
        case (Inl e)
        with u b show ?thesis
          by (simp add: start_sock_container_def Let_def sys_def open_fd_def)
      next
        case f: (Inr g)
        let ?p3 = "sys (Fork g) (sys (Bind s) ((open_fd s (sys Unshare q))\<lparr>file_sock := Some s\<rparr>))"
        have t3: "trace ?p3 = trace q @ [Unshare, Bind s, Fork g]"
          by (simp add: sys_def open_fd_def)
        show ?thesis
        proof (cases "g = 0")
          case False
          with u b f show ?thesis
            by (simp add: start_sock_container_def Let_def sys_def open_fd_def)
        next
          case True
          with u b f have eq: "start_sock_container env q = run_bootstrap env ?p3"
            by (simp add: start_sock_container_def Let_def)
          from rb [of ?p3] obtain evs where
            e: "trace (snd (run_bootstrap env ?p3)) = trace ?p3 @ evs"
            and n: "\<forall>d w. Sendall d w \<notin> set evs"
            by (elim exE conjE)
          have "trace (snd (start_sock_container env q)) = trace q @ ([Unshare, Bind s, Fork g] @ evs)"
            by (simp only: eq e t3 append_assoc)
          moreover from n have "\<forall>d w. Sendall d w \<notin> set ([Unshare, Bind s, Fork g] @ evs)"
            by simp
          ultimately show ?thesis
            by (intro exI conjI)
        qed
      qed
    qed
  qed
qed

lemma child_branch_trace:
  "\<exists>evs. trace (snd (child_branch c l r m p)) = trace p @ evs \<and> (\<forall>d w. Sendall d w \<notin> set evs)"
proof (cases "chroot_ok c \<and> cgroup_ok c")
  case False
  then show ?thesis
    by (auto simp: child_branch_def Let_def sys_def close_fd_def)
next
  case True
  let ?q = "close_fd m (sys (Write_pid m (getpid c))
      (close_fd r (sys Chroot (sys (Fchdir r) ((close_fd l p)\<lparr>file_sock := None\<rparr>)))))"
  have tq: "trace ?q = trace p @ [Close l, Fchdir r, Chroot, Close r, Write_pid m (getpid c), Close m]"
    by (simp add: sys_def close_fd_def)
  obtain res q' where ssc: "start_sock_container (child_env c) ?q = (res, q')"
    by (cases "start_sock_container (child_env c) ?q")
  from start_sock_container_trace [of "child_env c" ?q] ssc obtain evs where
    e: "trace q' = trace ?q @ evs" and n: "\<forall>d w. Sendall d w \<notin> set evs"
    by (elim exE conjE) simp
  from True ssc have
    "snd (child_branch c l r m p) = (if res = Returned then sys (Exit 1) q' else q')"
    by (cases res) (simp_all add: child_branch_def Let_def)
  then have "trace (snd (child_branch c l r m p)) =
      trace q' @ (if res = Returned then [Exit 1] else [])"
    by (simp add: sys_def)
  then have "trace (snd (child_branch c l r m p)) =
      trace p @ ([Close l, Fchdir r, Chroot, Close r, Write_pid m (getpid c), Close m] @ evs
        @ (if res = Returned then [Exit 1] else []))"
    by (simp only: e tq append_assoc)
  moreover from n have "\<forall>d w. Sendall d w \<notin>
      set ([Close l, Fchdir r, Chroot, Close r, Write_pid m (getpid c), Close m] @ evs
        @ (if res = Returned then [Exit 1] else []))"
    by simp
  ultimately show ?thesis
    by (intro exI conjI)
qed

lemma child_events_no_Sendall: "Sendall d w \<notin> set (child_events c l r m p)"
proof -
  from child_branch_trace [of c l r m p] obtain evs where
    e: "trace (snd (child_branch c l r m p)) = trace p @ evs"
    and n: "\<forall>d w. Sendall d w \<notin> set evs"
    by (elim exE conjE)
  have "child_events c l r m p = evs"
    by (simp add: child_events_def e)
  with n show ?thesis by simp
qed

lemma start_sock_container_Exited:
  "start_sock_container env q = (Exited n, q') \<Longrightarrow>
     n = 0 \<and> unshare_ret env = 0 \<and>
     (\<exists>s g. bind_res env = Inr s \<and> fork2_res env = Inr g \<and> 0 < g
        \<and> trace q' = trace q @ [Unshare, Bind s, Fork g, Exit 0])"
  by (auto simp: start_sock_container_def run_bootstrap_def Let_def sys_def open_fd_def
      split: if_splits sum.splits exec_result.splits)

text \<open>
  Where the ordering that the comments of \<^verbatim>\<open>start_sock_container\<close> describe does hold:
  the parent sends its reply only after \<^verbatim>\<open>waitpid\<close> has returned, so every call the
  child has made, its bind among them when it got that far, comes before the reply in
  every interleaving. Whether the child got as far as the bind is not looked at.
\<close>

lemma child_calls_precede_reply:
  assumes run: "run_sched sch (parent_events c pid root_fd mem_cgroup_fd p)
           (child_events c l root_fd mem_cgroup_fd p) = Some t"
    and sent: "Sendall d w \<in> set t"
    and a: "a \<in> set (child_events c l root_fd mem_cgroup_fd p)"
  shows "a \<in> set (takeWhile (\<lambda>e. e \<noteq> Sendall d w) t)"
proof -
  let ?ps = "parent_events c pid root_fd mem_cgroup_fd p"
  let ?cs = "child_events c l root_fd mem_cgroup_fd p"
  have not_child: "Sendall d w \<notin> set ?cs"
    by (rule child_events_no_Sendall)
  from run_sched_set [OF run] sent not_child have in_parent: "Sendall d w \<in> set ?ps"
    by auto
  have ps: "?ps = [Close root_fd, Close mem_cgroup_fd, Waitpid pid, Sendall d w, Close d]"
  proof (cases "pack_I pid")
    case (Inl e)
    with in_parent show ?thesis
      by (simp add: parent_events_eq)
  next
    case (Inr w')
    with in_parent show ?thesis
      by (cases "send_ok c") (auto simp: parent_events_eq)
  qed
  have wait: "\<exists>e \<in> set (takeWhile (\<lambda>e. e \<noteq> Sendall d w) ?ps). is_waitpid e"
    unfolding ps by (simp add: is_waitpid_def)
  show ?thesis
    by (rule waits_for_child [OF run not_child a wait sent])
qed

text \<open>
  Claim C4. The claim has the parent never send the reply before the replacement
  listening socket exists, and the comments in \<^verbatim>\<open>start_sock_container\<close> and in the parent
  branch of \<^verbatim>\<open>fork_server\<close> say the same. The parent, however, discards the status that
  \<^verbatim>\<open>os.waitpid\<close> returns. For a request whose child meets \<^verbatim>\<open>ol.unshare()\<close> returning
  \<open>-1\<close>, the child ends on the failed assertion before it binds any socket, and in the
  schedule below, which lets the child run to its end first, the parent's \<^verbatim>\<open>waitpid\<close>
  returns and the reply \<open>Sendall 4 100\<close> is sent although no \<open>Bind\<close> has happened.
\<close>

theorem reply_without_socket:
  "fst (child_branch conn_unshare_fails 3 5 6 server_at_fork) = Raised AssertionError
   \<and> run_sched
       [False, False, False, False, False, False, False, True, True, True, True]
       (parent_events conn_unshare_fails 100 5 6 server_at_fork)
       (child_events conn_unshare_fails 3 5 6 server_at_fork) =
     Some [Close 3, Fchdir 5, Chroot, Close 5, Write_pid 6 100, Close 6, Unshare,
           Close 5, Close 6, Waitpid 100, Sendall 4 100]"
  by (simp add: parent_events_def child_events_def parent_branch_def child_branch_def
      start_sock_container_def conn_unshare_fails_def conn_ok_def ssc_ok_def server_at_fork_def
      sys_def close_fd_def open_fd_def pack_I_def Let_def)

section \<open>Properties of the entry point and of the bootstrap\<close>

lemma take_action_seccomp:
  "take_action occ a = Inr a' \<Longrightarrow> a_enable_seccomp a \<Longrightarrow> a_enable_seccomp a'"
  by (cases occ) (auto simp: take_action_def split: if_splits)

lemma take_actions_seccomp:
  "take_actions occs a = Inr a' \<Longrightarrow> a_enable_seccomp a \<Longrightarrow> a_enable_seccomp a'"
proof (induction occs arbitrary: a)
  case Nil
  then show ?case by simp
next
  case (Cons occ occs)
  from Cons.prems(1) obtain a1 where
    one: "take_action occ a = Inr a1" and rest: "take_actions occs a1 = Inr a'"
    by (auto split: sum.splits)
  from take_action_seccomp [OF one Cons.prems(2)] have "a_enable_seccomp a1" .
  with Cons.IH [OF rest] show ?case .
qed

lemma parse_args_seccomp: "parse_args cl = Inr a \<Longrightarrow> a_enable_seccomp a"
proof -
  assume "parse_args cl = Inr a"
  then have "take_actions (occurrences cl) default_args = Inr a"
    by (auto simp: parse_args_def split: sum.splits if_splits)
  then show ?thesis
    by (rule take_actions_seccomp) (simp add: default_args_def)
qed

lemma trace_sys: "trace (sys e p) = trace p @ [e]"
  by (simp add: sys_def)

lemma join_cgroups_trace:
  "\<exists>ys. trace (snd (join_cgroups ds pid p)) = trace p @ ys"
proof (induction ds arbitrary: p)
  case Nil
  then show ?case by simp
next
  case (Cons d ds)
  show ?case
  proof (cases "d \<in> open_fds p")
    case True
    from Cons.IH [of "close_fd d (sys (Write_pid d pid) p)"] obtain ys where
      "trace (snd (join_cgroups ds pid (close_fd d (sys (Write_pid d pid) p)))) =
         trace (close_fd d (sys (Write_pid d pid) p)) @ ys"
      by (elim exE)
    with True show ?thesis
      by (simp add: close_fd_def sys_def)
  next
    case False
    then show ?thesis by simp
  qed
qed

lemma after_ssc_trace:
  "\<exists>ys. trace (snd (case start_sock_container env q of
          (Returned, p5) \<Rightarrow> (Exited 0, p5) | (r, p5) \<Rightarrow> (r, p5))) = trace q @ ys"
proof (cases "start_sock_container env q")
  case (Pair r p5)
  with start_sock_container_trace [of env q] obtain ys where "trace p5 = trace q @ ys"
    by auto
  with Pair show ?thesis
    by (cases r) simp_all
qed

lemma main_sock_seccomp:
  assumes "a_enable_seccomp a" and "ol_import_ok env"
  shows "(\<exists>rest. trace (snd (main_sock a env p)) =
            trace p @ [Print ''Running in SOCK environment'', Import_ol, Enable_seccomp] @ rest)
       \<and> (seccomp_ret env < 0 \<longrightarrow>
            main_sock a env p =
              (Raised AssertionError,
               sys Enable_seccomp (sys Import_ol (sys (Print ''Running in SOCK environment'') p))))"
proof (intro conjI impI)
  assume "seccomp_ret env < 0"
  with assms show "main_sock a env p =
      (Raised AssertionError,
       sys Enable_seccomp (sys Import_ol (sys (Print ''Running in SOCK environment'') p)))"
    by (simp add: main_sock_def Let_def)
next
  let ?p2 = "sys Enable_seccomp (sys Import_ol (sys (Print ''Running in SOCK environment'') p))"
  let ?p3 = "sys (Print ''seccomp enabled'') ?p2"
  have p2: "trace ?p2 =
      trace p @ [Print ''Running in SOCK environment'', Import_ol, Enable_seccomp]"
    by (simp add: sys_def)
  show "\<exists>rest. trace (snd (main_sock a env p)) =
            trace p @ [Print ''Running in SOCK environment'', Import_ol, Enable_seccomp] @ rest"
  proof (cases "0 \<le> seccomp_ret env")
    case False
    with assms have "main_sock a env p = (Raised AssertionError, ?p2)"
      by (simp add: main_sock_def Let_def)
    with p2 show ?thesis by simp
  next
    case ok: True
    show ?thesis
    proof (cases "a_bootstrap a = None \<or> a_bootstrap a = Some []")
      case True
      with assms ok have "main_sock a env p =
          (Exited 1, sys (Print ''Error: --bootstrap is required in sock mode.'') ?p3)"
        by (simp add: main_sock_def Let_def)
      then show ?thesis
        by (simp add: sys_def)
    next
      case b: False
      let ?ds = "map (\<lambda>i. 3 + i) [0..<nat (a_cgroup_count a)]"
      from assms ok b have ms: "main_sock a env p =
          (case join_cgroups ?ds (main_pid env) ?p3 of
             (Returned, p4) \<Rightarrow>
               (case start_sock_container (ssc env) p4 of
                  (Returned, p5) \<Rightarrow> (Exited 0, p5) | (r, p5) \<Rightarrow> (r, p5))
           | (r, p4) \<Rightarrow> (r, p4))"
        by (auto simp: main_sock_def Let_def)
      obtain r p4 where j: "join_cgroups ?ds (main_pid env) ?p3 = (r, p4)"
        by (cases "join_cgroups ?ds (main_pid env) ?p3")
      from join_cgroups_trace [of ?ds "main_pid env" ?p3] j obtain ys where
        p4: "trace p4 = trace ?p3 @ ys"
        by auto
      have p3: "trace ?p3 =
          trace p @ [Print ''Running in SOCK environment'', Import_ol, Enable_seccomp]
            @ [Print ''seccomp enabled'']"
        by (simp add: trace_sys)
      show ?thesis
      proof (cases "r = Returned")
        case False
        with j have "main_sock a env p = (r, p4)"
          unfolding ms by (cases r) simp_all
        then have "trace (snd (main_sock a env p)) = trace p4"
          by simp
        then show ?thesis
          unfolding p4 p3 by simp
      next
        case True
        with j have m: "main_sock a env p =
            (case start_sock_container (ssc env) p4 of
               (Returned, p5) \<Rightarrow> (Exited 0, p5) | (r, p5) \<Rightarrow> (r, p5))"
          unfolding ms by simp
        from after_ssc_trace [of "ssc env" p4] obtain zs where
          "trace (snd (main_sock a env p)) = trace p4 @ zs"
          unfolding m by (elim exE)
        then show ?thesis
          unfolding p4 p3 by simp
      qed
    qed
  qed
qed

text \<open>
  Claim C10. No command line turns the filter off: whatever options \<^verbatim>\<open>argparse\<close> finds
  on it, a namespace that \<^verbatim>\<open>parse_args\<close> returns has \<^verbatim>\<open>enable_seccomp\<close> true, because the
  default is \<^verbatim>\<open>True\<close> and the only action on it stores \<^verbatim>\<open>True\<close>. So in sock mode, once
  \<^verbatim>\<open>import ol\<close> has found the module, the first call \<^verbatim>\<open>main\<close> makes is
  \<^verbatim>\<open>ol.enable_seccomp()\<close>, and a negative return value ends \<^verbatim>\<open>main\<close> on the assertion,
  before anything else is done.
\<close>

theorem seccomp_always_enabled:
  "(parse_args cl = Inr a \<longrightarrow> a_enable_seccomp a)
   \<and> (parse_args cl = Inr a \<and> a_env a = ''sock'' \<and> ol_import_ok env \<longrightarrow>
        (\<exists>rest. trace (snd (main cl env p)) =
            trace p @ [Print ''Running in SOCK environment'', Import_ol, Enable_seccomp] @ rest)
        \<and> (seccomp_ret env < 0 \<longrightarrow>
            main cl env p =
              (Raised AssertionError,
               sys Enable_seccomp
                 (sys Import_ol (sys (Print ''Running in SOCK environment'') p)))))"
proof (intro conjI impI)
  assume "parse_args cl = Inr a"
  then show "a_enable_seccomp a"
    by (rule parse_args_seccomp)
next
  assume h: "parse_args cl = Inr a \<and> a_env a = ''sock'' \<and> ol_import_ok env"
  then have s: "a_enable_seccomp a" and i: "ol_import_ok env"
    by (auto dest: parse_args_seccomp)
  from h have m: "main cl env p = main_sock a env p"
    by (simp add: main_def)
  from main_sock_seccomp [OF s i, of p]
  show "\<exists>rest. trace (snd (main cl env p)) =
            trace p @ [Print ''Running in SOCK environment'', Import_ol, Enable_seccomp] @ rest"
    unfolding m by (rule conjunct1)
next
  assume h: "parse_args cl = Inr a \<and> a_env a = ''sock'' \<and> ol_import_ok env"
    and neg: "seccomp_ret env < 0"
  then have s: "a_enable_seccomp a" and i: "ol_import_ok env"
    by (auto dest: parse_args_seccomp)
  from h have m: "main cl env p = main_sock a env p"
    by (simp add: main_def)
  from main_sock_seccomp [OF s i, of p] neg
  show "main cl env p =
      (Raised AssertionError,
       sys Enable_seccomp (sys Import_ol (sys (Print ''Running in SOCK environment'') p)))"
    unfolding m by simp
qed

theorem seccomp_always_enabled_witness:
  "a_enable_seccomp \<lparr>a_env = ''sock'', a_bootstrap = Some ''/boot.py'', a_cache = False,
       a_cgroup_count = 0, a_enable_seccomp = True\<rparr>
   \<and> (\<exists>rest. trace (snd (main boot_cmdline (env_bootstrap_raises\<lparr>seccomp_ret := - 1\<rparr>) proc0)) =
         trace proc0 @ [Print ''Running in SOCK environment'', Import_ol, Enable_seccomp] @ rest)
   \<and> main boot_cmdline (env_bootstrap_raises\<lparr>seccomp_ret := - 1\<rparr>) proc0 =
       (Raised AssertionError,
        sys Enable_seccomp (sys Import_ol (sys (Print ''Running in SOCK environment'') proc0)))"
proof -
  let ?a = "\<lparr>a_env = ''sock'', a_bootstrap = Some ''/boot.py'', a_cache = False,
       a_cgroup_count = 0, a_enable_seccomp = True\<rparr>"
  let ?env = "env_bootstrap_raises\<lparr>seccomp_ret := - 1\<rparr>"
  have pa: "parse_args boot_cmdline = Inr ?a \<and> a_env ?a = ''sock'' \<and> ol_import_ok ?env"
    by (simp add: parse_args_def boot_cmdline_def default_args_def take_action_def
        env_bootstrap_raises_def)
  have neg: "seccomp_ret ?env < 0"
    by simp
  from seccomp_always_enabled [of boot_cmdline ?a ?env proc0] pa neg
  show ?thesis by blast
qed

text \<open>
  With every option given at once, \<^verbatim>\<open>--enable-seccomp\<close> among them or not, the flag is
  true; and without \<^verbatim>\<open>import ol\<close> finding the module, \<^verbatim>\<open>main\<close> ends before the call.
\<close>

lemma parse_args_examples:
  "parse_args \<lparr>occurrences = [Opt_env ''docker'', Opt_cache], rejected = False\<rparr> =
     Inr \<lparr>a_env = ''docker'', a_bootstrap = None, a_cache = True, a_cgroup_count = 0,
          a_enable_seccomp = True\<rparr>
   \<and> parse_args \<lparr>occurrences = [Opt_enable_seccomp, Opt_cgroup_count 2,
          Opt_bootstrap ''/boot.py''], rejected = False\<rparr> =
     Inr \<lparr>a_env = ''sock'', a_bootstrap = Some ''/boot.py'', a_cache = False,
          a_cgroup_count = 2, a_enable_seccomp = True\<rparr>
   \<and> parse_args \<lparr>occurrences = [Opt_env ''host''], rejected = False\<rparr> = Inl 2
   \<and> parse_args \<lparr>occurrences = [Opt_cache], rejected = True\<rparr> = Inl 2
   \<and> parse_args \<lparr>occurrences = [Opt_cache, Opt_help], rejected = False\<rparr> = Inl 0"
  by (simp add: parse_args_def default_args_def take_action_def)

lemma main_without_ol:
  "main boot_cmdline (env_bootstrap_raises\<lparr>ol_import_ok := False\<rparr>) proc0 =
     (Raised ImportError,
      proc0\<lparr>trace := [Print ''Running in SOCK environment'', Import_ol]\<rparr>)"
  by (simp add: main_def parse_args_def boot_cmdline_def default_args_def take_action_def
      main_sock_def env_bootstrap_raises_def proc0_def sys_def Let_def)

subsection \<open>A bootstrap script that raises\<close>

lemma run_bootstrap_raises:
  "read_res env = Inr code \<Longrightarrow> exec_res env = Exec_raises tb \<Longrightarrow>
     run_bootstrap env p =
       (Returned,
        p\<lparr>trace := trace p @
          [Exec code, Print (''Exception: '' @ tb),
           Print (''Problematic Python Code:'' @ [CHR 0x0A] @ code)]\<rparr>)"
  by (simp add: run_bootstrap_def sys_def Let_def)

lemma start_sock_container_raises:
  assumes "unshare_ret env = 0" and "bind_res env = Inr s" and "fork2_res env = Inr 0"
    and "read_res env = Inr code" and "exec_res env = Exec_raises tb"
  shows "fst (start_sock_container env q) = Returned
     \<and> trace (snd (start_sock_container env q)) =
         trace q @ [Unshare, Bind s, Fork 0, Exec code, Print (''Exception: '' @ tb),
           Print (''Problematic Python Code:'' @ [CHR 0x0A] @ code)]"
proof -
  let ?p3 = "sys (Fork 0) (sys (Bind s) ((open_fd s (sys Unshare q))\<lparr>file_sock := Some s\<rparr>))"
  from assms(1-3) have "start_sock_container env q = run_bootstrap env ?p3"
    by (simp add: start_sock_container_def Let_def)
  then have "start_sock_container env q =
      (Returned,
        ?p3\<lparr>trace := trace ?p3 @
          [Exec code, Print (''Exception: '' @ tb),
           Print (''Problematic Python Code:'' @ [CHR 0x0A] @ code)]\<rparr>)"
    by (simp only: run_bootstrap_raises [OF assms(4,5)])
  then show ?thesis
    by (simp add: sys_def open_fd_def)
qed

text \<open>
  Claim C5, as amended. An \<^verbatim>\<open>Exception\<close> that the bootstrap script raises is caught in
  \<^verbatim>\<open>start_sock_container\<close>: the script has been executed once, the traceback and the
  whole script text are printed, and the function returns. In the child that
  \<^verbatim>\<open>fork_server\<close> forked, the process then ends by \<^verbatim>\<open>os._exit(1)\<close>.
\<close>

theorem bootstrap_exception_logged_then_exit_1:
  "(read_res env = Inr code \<and> exec_res env = Exec_raises tb \<longrightarrow>
      run_bootstrap env p =
        (Returned,
         p\<lparr>trace := trace p @
           [Exec code, Print (''Exception: '' @ tb),
            Print (''Problematic Python Code:'' @ [CHR 0x0A] @ code)]\<rparr>))
   \<and> (chroot_ok c \<and> cgroup_ok c \<and> unshare_ret (child_env c) = 0
        \<and> bind_res (child_env c) = Inr s \<and> fork2_res (child_env c) = Inr 0
        \<and> read_res (child_env c) = Inr code \<and> exec_res (child_env c) = Exec_raises tb \<longrightarrow>
      fst (child_branch c l root_fd mem_cgroup_fd p) = Exited 1
      \<and> child_events c l root_fd mem_cgroup_fd p =
          [Close l, Fchdir root_fd, Chroot, Close root_fd,
           Write_pid mem_cgroup_fd (getpid c), Close mem_cgroup_fd,
           Unshare, Bind s, Fork 0, Exec code, Print (''Exception: '' @ tb),
           Print (''Problematic Python Code:'' @ [CHR 0x0A] @ code), Exit 1])"
proof (intro conjI impI)
  assume "read_res env = Inr code \<and> exec_res env = Exec_raises tb"
  then show "run_bootstrap env p =
        (Returned,
         p\<lparr>trace := trace p @
           [Exec code, Print (''Exception: '' @ tb),
            Print (''Problematic Python Code:'' @ [CHR 0x0A] @ code)]\<rparr>)"
    by (simp add: run_bootstrap_raises)
next
  assume h: "chroot_ok c \<and> cgroup_ok c \<and> unshare_ret (child_env c) = 0
        \<and> bind_res (child_env c) = Inr s \<and> fork2_res (child_env c) = Inr 0
        \<and> read_res (child_env c) = Inr code \<and> exec_res (child_env c) = Exec_raises tb"
  let ?q = "close_fd mem_cgroup_fd (sys (Write_pid mem_cgroup_fd (getpid c))
      (close_fd root_fd (sys Chroot (sys (Fchdir root_fd) ((close_fd l p)\<lparr>file_sock := None\<rparr>)))))"
  have tq: "trace ?q = trace p @ [Close l, Fchdir root_fd, Chroot, Close root_fd,
      Write_pid mem_cgroup_fd (getpid c), Close mem_cgroup_fd]"
    by (simp add: sys_def close_fd_def)
  obtain res q' where ssc: "start_sock_container (child_env c) ?q = (res, q')"
    by (cases "start_sock_container (child_env c) ?q")
  from h have "fst (start_sock_container (child_env c) ?q) = Returned
     \<and> trace (snd (start_sock_container (child_env c) ?q)) =
         trace ?q @ [Unshare, Bind s, Fork 0, Exec code, Print (''Exception: '' @ tb),
           Print (''Problematic Python Code:'' @ [CHR 0x0A] @ code)]"
    by (intro start_sock_container_raises) simp_all
  with ssc have res: "res = Returned"
    and tq': "trace q' = trace ?q @ [Unshare, Bind s, Fork 0, Exec code,
        Print (''Exception: '' @ tb), Print (''Problematic Python Code:'' @ [CHR 0x0A] @ code)]"
    by simp_all
  from h ssc res have cb: "child_branch c l root_fd mem_cgroup_fd p = (Exited 1, sys (Exit 1) q')"
    by (simp add: child_branch_def Let_def)
  then show "fst (child_branch c l root_fd mem_cgroup_fd p) = Exited 1"
    by simp
  have "trace (sys (Exit 1) q') = trace p @ ([Close l, Fchdir root_fd, Chroot, Close root_fd,
      Write_pid mem_cgroup_fd (getpid c), Close mem_cgroup_fd] @
      [Unshare, Bind s, Fork 0, Exec code, Print (''Exception: '' @ tb),
       Print (''Problematic Python Code:'' @ [CHR 0x0A] @ code)] @ [Exit 1])"
    by (simp only: trace_sys tq' tq append_assoc)
  then show "child_events c l root_fd mem_cgroup_fd p =
          [Close l, Fchdir root_fd, Chroot, Close root_fd,
           Write_pid mem_cgroup_fd (getpid c), Close mem_cgroup_fd,
           Unshare, Bind s, Fork 0, Exec code, Print (''Exception: '' @ tb),
           Print (''Problematic Python Code:'' @ [CHR 0x0A] @ code), Exit 1]"
    by (simp add: child_events_def cb)
qed

theorem bootstrap_exception_logged_then_exit_1_witness:
  "run_bootstrap ssc_bootstrap_raises server_at_fork =
     (Returned,
      server_at_fork\<lparr>trace := trace server_at_fork @
        [Exec ''boom()'', Print (''Exception: '' @ traceback_example),
         Print (''Problematic Python Code:'' @ [CHR 0x0A] @ ''boom()'')]\<rparr>)
   \<and> fst (child_branch (conn_ok\<lparr>child_env := ssc_bootstrap_raises\<rparr>) 3 5 6 server_at_fork)
       = Exited 1
   \<and> child_events (conn_ok\<lparr>child_env := ssc_bootstrap_raises\<rparr>) 3 5 6 server_at_fork =
       [Close 3, Fchdir 5, Chroot, Close 5, Write_pid 6 100, Close 6,
        Unshare, Bind 3, Fork 0, Exec ''boom()'', Print (''Exception: '' @ traceback_example),
        Print (''Problematic Python Code:'' @ [CHR 0x0A] @ ''boom()''), Exit 1]"
proof -
  let ?c = "conn_ok\<lparr>child_env := ssc_bootstrap_raises\<rparr>"
  have a: "read_res ssc_bootstrap_raises = Inr ''boom()''
      \<and> exec_res ssc_bootstrap_raises = Exec_raises traceback_example"
    by (simp add: ssc_bootstrap_raises_def)
  have b: "chroot_ok ?c \<and> cgroup_ok ?c \<and> unshare_ret (child_env ?c) = 0
        \<and> bind_res (child_env ?c) = Inr 3 \<and> fork2_res (child_env ?c) = Inr 0
        \<and> read_res (child_env ?c) = Inr ''boom()''
        \<and> exec_res (child_env ?c) = Exec_raises traceback_example"
    by (simp add: conn_ok_def ssc_bootstrap_raises_def)
  have g: "getpid ?c = 100"
    by (simp add: conn_ok_def)
  from bootstrap_exception_logged_then_exit_1
    [of ssc_bootstrap_raises "''boom()''" traceback_example server_at_fork ?c 3 3 5 6]
    a b
  show ?thesis
    unfolding g by blast
qed

text \<open>
  The claim as first stated fails in two places. A script that raises \<^verbatim>\<open>SystemExit\<close> is
  not caught by \<^verbatim>\<open>except Exception\<close>: nothing is printed, and the exception leaves
  \<^verbatim>\<open>start_sock_container\<close>. And when \<^verbatim>\<open>start_sock_container\<close> was called from \<^verbatim>\<open>main\<close>,
  the process that has logged the exception ends with status 0.
\<close>

theorem bootstrap_failure_uncaught_or_exit_0:
  "child_branch (conn_ok\<lparr>child_env := ssc_bootstrap_exits\<rparr>) 3 5 6 server_at_fork =
     (Raised BaseException,
      \<lparr>open_fds = {0, 1, 2, 3, 4}, file_sock = Some 3,
       trace = [Accept 4, Recv_fds [5, 6], Close 3, Fchdir 5, Chroot, Close 5,
         Write_pid 6 100, Close 6, Unshare, Bind 3, Fork 0, Exec ''sys.exit(3)'']\<rparr>)
   \<and> main boot_cmdline env_bootstrap_raises proc0 =
     (Exited 0,
      \<lparr>open_fds = {0, 1, 2, 3}, file_sock = Some 3,
       trace = [Print ''Running in SOCK environment'', Import_ol, Enable_seccomp,
         Print ''seccomp enabled'', Unshare, Bind 3, Fork 0, Exec ''boom()'',
         Print (''Exception: '' @ traceback_example),
         Print (''Problematic Python Code:'' @ [CHR 0x0A] @ ''boom()'')]\<rparr>)"
proof (intro conjI)
  have s: "{0, Suc 0, 2, 3, 4, 5, 6} - {3} - {5} - {6} = {0, Suc 0, 2, 4::nat}"
    by auto
  have i: "insert 3 {0, Suc 0, 2, 4::nat} = {0, Suc 0, 2, 3, 4}"
    by auto
  show "child_branch (conn_ok\<lparr>child_env := ssc_bootstrap_exits\<rparr>) 3 5 6 server_at_fork =
     (Raised BaseException,
      \<lparr>open_fds = {0, 1, 2, 3, 4}, file_sock = Some 3,
       trace = [Accept 4, Recv_fds [5, 6], Close 3, Fchdir 5, Chroot, Close 5,
         Write_pid 6 100, Close 6, Unshare, Bind 3, Fork 0, Exec ''sys.exit(3)'']\<rparr>)"
    by (simp add: child_branch_def start_sock_container_def run_bootstrap_def conn_ok_def
        ssc_bootstrap_exits_def server_at_fork_def sys_def close_fd_def open_fd_def Let_def s i)
  have pa: "parse_args boot_cmdline =
      Inr \<lparr>a_env = ''sock'', a_bootstrap = Some ''/boot.py'', a_cache = False,
       a_cgroup_count = 0, a_enable_seccomp = True\<rparr>"
    by (simp add: parse_args_def boot_cmdline_def default_args_def take_action_def)
  have j: "insert 3 {0, Suc 0, 2::nat} = {0, Suc 0, 2, 3}"
    by auto
  show "main boot_cmdline env_bootstrap_raises proc0 =
     (Exited 0,
      \<lparr>open_fds = {0, 1, 2, 3}, file_sock = Some 3,
       trace = [Print ''Running in SOCK environment'', Import_ol, Enable_seccomp,
         Print ''seccomp enabled'', Unshare, Bind 3, Fork 0, Exec ''boom()'',
         Print (''Exception: '' @ traceback_example),
         Print (''Problematic Python Code:'' @ [CHR 0x0A] @ ''boom()'')]\<rparr>)"
    by (simp add: main_def pa main_sock_def start_sock_container_def run_bootstrap_def
        env_bootstrap_raises_def ssc_bootstrap_raises_def proc0_def sys_def open_fd_def Let_def j)
qed

section \<open>Properties of the request handler\<close>

lemma escape_byte_plain:
  "printable c \<Longrightarrow> c \<noteq> q \<Longrightarrow> c \<noteq> CHR 0x5C \<Longrightarrow> escape_byte q c = [c]"
  by (auto simp: escape_byte_def printable_def)

lemma escape_bytes_plain:
  "\<forall>c\<in>set bs. printable c \<and> c \<noteq> CHR 0x5C \<Longrightarrow> q \<notin> set bs \<Longrightarrow>
     concat (map (escape_byte q) bs) = bs"
proof (induction bs)
  case Nil
  then show ?case by simp
next
  case (Cons c bs)
  from Cons.prems have "escape_byte q c = [c]"
    by (intro escape_byte_plain) auto
  moreover from Cons.prems have "concat (map (escape_byte q) bs) = bs"
    by (intro Cons.IH) auto
  ultimately show ?case by simp
qed

lemma bytes_repr_plain:
  assumes "\<forall>c\<in>set bs. printable c \<and> c \<noteq> CHR 0x5C"
    and "\<not> (CHR 0x27 \<in> set bs \<and> CHR 0x22 \<in> set bs)"
  shows "\<exists>q. bytes_repr bs = [CHR ''b'', q] @ bs @ [q]"
proof -
  let ?q = "if CHR 0x27 \<in> set bs \<and> CHR 0x22 \<notin> set bs then CHR 0x22 else CHR 0x27"
  from assms(2) have "?q \<notin> set bs"
    by auto
  with assms(1) have "concat (map (escape_byte ?q) bs) = bs"
    by (rule escape_bytes_plain)
  then have "bytes_repr bs = [CHR ''b'', ?q] @ bs @ [?q]"
    by (simp add: bytes_repr_def Let_def)
  then show ?thesis
    by (rule exI)
qed

lemma bad_body_400:
  "body rq \<noteq> [] \<Longrightarrow> loads_res rq = None \<Longrightarrow>
     handle_request rq =
       Inr \<lparr>status = 400,
            written = ''Bad request data: '' @ [CHR 0x22] @ bytes_repr (body rq) @ [CHR 0x22]\<rparr>"
  by (simp add: handle_request_def parse_body_def)

lemma handler_exception_500:
  "parse_body rq = Some event \<Longrightarrow>
   handler_f rq (if event \<noteq> PNone then event else PDict []) = Raises t \<Longrightarrow>
     handle_request rq = Inr \<lparr>status = 500, written = format_exc t\<rparr>"
  by (simp add: handle_request_def)

text \<open>
  Claim C8, as amended. A request whose body is not empty and is rejected by
  \<^verbatim>\<open>json.loads\<close> is answered with status 400 and the text \<^verbatim>\<open>Bad request data: "\<close>,
  Python's text of the \<^verbatim>\<open>bytes\<close> object, \<^verbatim>\<open>"\<close>. That text holds the body itself
  when the body is made of printable ASCII characters other than the backslash and does
  not hold both kinds of quote. A request whose body is accepted (or is empty) and whose
  handler raises an \<^verbatim>\<open>Exception\<close> is answered with status 500 and the traceback text,
  which is not empty.
\<close>

theorem bad_body_400_handler_exception_500:
  "(body rq \<noteq> [] \<and> loads_res rq = None \<longrightarrow>
      handle_request rq =
        Inr \<lparr>status = 400,
             written = ''Bad request data: '' @ [CHR 0x22] @ bytes_repr (body rq) @ [CHR 0x22]\<rparr>)
   \<and> (body rq \<noteq> [] \<and> loads_res rq = None
        \<and> (\<forall>c\<in>set (body rq). printable c \<and> c \<noteq> CHR 0x5C)
        \<and> \<not> (CHR 0x27 \<in> set (body rq) \<and> CHR 0x22 \<in> set (body rq)) \<longrightarrow>
      (\<exists>w. handle_request rq = Inr w \<and> status w = 400 \<and> sublist (body rq) (written w)))
   \<and> (parse_body rq = Some event
        \<and> handler_f rq (if event \<noteq> PNone then event else PDict []) = Raises t \<longrightarrow>
      handle_request rq = Inr \<lparr>status = 500, written = format_exc t\<rparr>
      \<and> format_exc t \<noteq> [])"
proof (intro conjI impI)
  assume "body rq \<noteq> [] \<and> loads_res rq = None"
  then show "handle_request rq =
        Inr \<lparr>status = 400,
             written = ''Bad request data: '' @ [CHR 0x22] @ bytes_repr (body rq) @ [CHR 0x22]\<rparr>"
    by (simp add: bad_body_400)
next
  assume h: "body rq \<noteq> [] \<and> loads_res rq = None
        \<and> (\<forall>c\<in>set (body rq). printable c \<and> c \<noteq> CHR 0x5C)
        \<and> \<not> (CHR 0x27 \<in> set (body rq) \<and> CHR 0x22 \<in> set (body rq))"
  then have r: "handle_request rq =
        Inr \<lparr>status = 400,
             written = ''Bad request data: '' @ [CHR 0x22] @ bytes_repr (body rq) @ [CHR 0x22]\<rparr>"
    by (simp add: bad_body_400)
  from h have "\<exists>q. bytes_repr (body rq) = [CHR ''b'', q] @ body rq @ [q]"
    by (intro bytes_repr_plain) simp_all
  then obtain q where q: "bytes_repr (body rq) = [CHR ''b'', q] @ body rq @ [q]"
    by (elim exE)
  have "''Bad request data: '' @ [CHR 0x22] @ bytes_repr (body rq) @ [CHR 0x22] =
      (''Bad request data: '' @ [CHR 0x22] @ [CHR ''b'', q]) @ body rq @ ([q] @ [CHR 0x22])"
    by (simp add: q)
  then have "sublist (body rq)
      (''Bad request data: '' @ [CHR 0x22] @ bytes_repr (body rq) @ [CHR 0x22])"
    unfolding sublist_def by (intro exI)
  with r show "\<exists>w. handle_request rq = Inr w \<and> status w = 400 \<and> sublist (body rq) (written w)"
    by simp
next
  assume "parse_body rq = Some event
        \<and> handler_f rq (if event \<noteq> PNone then event else PDict []) = Raises t"
  then show "handle_request rq = Inr \<lparr>status = 500, written = format_exc t\<rparr>"
    by (simp add: handler_exception_500)
next
  show "format_exc t \<noteq> []"
    by (simp add: format_exc_def)
qed

theorem bad_body_400_handler_exception_500_witness:
  "handle_request rq_not_json =
     Inr \<lparr>status = 400,
          written = ''Bad request data: '' @ [CHR 0x22] @ ''b'' @ [CHR 0x27] @ ''not json''
            @ [CHR 0x27, CHR 0x22]\<rparr>
   \<and> (\<exists>w. handle_request rq_not_json = Inr w \<and> status w = 400
         \<and> sublist ''not json'' (written w))
   \<and> handle_request (rq_empty_dict\<lparr>handler_f := f_raises\<rparr>) =
       Inr \<lparr>status = 500, written = handler_traceback @ [CHR 0x0A]\<rparr>
   \<and> handler_traceback @ [CHR 0x0A] \<noteq> []"
proof -
  let ?rq = "rq_empty_dict\<lparr>handler_f := f_raises\<rparr>"
  have a: "body rq_not_json \<noteq> [] \<and> loads_res rq_not_json = None
        \<and> (\<forall>c\<in>set (body rq_not_json). printable c \<and> c \<noteq> CHR 0x5C)
        \<and> \<not> (CHR 0x27 \<in> set (body rq_not_json) \<and> CHR 0x22 \<in> set (body rq_not_json))"
    by (simp add: rq_not_json_def printable_def)
  have b: "parse_body ?rq = Some (PDict [])
        \<and> handler_f ?rq (if PDict [] \<noteq> PNone then PDict [] else PDict []) =
            Raises handler_traceback"
    by (simp add: parse_body_def rq_empty_dict_def f_raises_def)
  have r: "bytes_repr (body rq_not_json) = ''b'' @ [CHR 0x27] @ ''not json'' @ [CHR 0x27]"
    by (simp add: rq_not_json_def bytes_repr_def escape_byte_def Let_def)
  have n: "body rq_not_json = ''not json''"
    by (simp add: rq_not_json_def)
  from bad_body_400_handler_exception_500 [of rq_not_json "PDict []" handler_traceback] a
  have 1: "handle_request rq_not_json =
        Inr \<lparr>status = 400,
             written = ''Bad request data: '' @ [CHR 0x22] @ bytes_repr (body rq_not_json)
               @ [CHR 0x22]\<rparr>"
    and 2: "\<exists>w. handle_request rq_not_json = Inr w \<and> status w = 400
         \<and> sublist (body rq_not_json) (written w)"
    by blast+
  from bad_body_400_handler_exception_500 [of ?rq "PDict []" handler_traceback] b
  have 3: "handle_request ?rq = Inr \<lparr>status = 500, written = format_exc handler_traceback\<rparr>"
    and 4: "format_exc handler_traceback \<noteq> []"
    by blast+
  from 1 have "handle_request rq_not_json =
     Inr \<lparr>status = 400,
          written = ''Bad request data: '' @ [CHR 0x22] @ ''b'' @ [CHR 0x27] @ ''not json''
            @ [CHR 0x27, CHR 0x22]\<rparr>"
    unfolding r by simp
  moreover from 2 have "\<exists>w. handle_request rq_not_json = Inr w \<and> status w = 400
         \<and> sublist ''not json'' (written w)"
    unfolding n .
  moreover from 3 have "handle_request ?rq =
       Inr \<lparr>status = 500, written = handler_traceback @ [CHR 0x0A]\<rparr>"
    unfolding format_exc_def .
  moreover from 4 have "handler_traceback @ [CHR 0x0A] \<noteq> []"
    unfolding format_exc_def .
  ultimately show ?thesis
    by (intro conjI)
qed

text \<open>
  The claim as first stated fails in two places. The body \<^verbatim>\<open>{\<close> followed by a newline
  is answered with the newline written as a backslash and the letter \<^verbatim>\<open>n\<close>: the answer
  does not hold the body. And a handler that raises \<^verbatim>\<open>SystemExit\<close> is not answered by
  \<^verbatim>\<open>handle_request\<close> at all.
\<close>

theorem bad_body_escaped_or_handler_uncaught:
  "handle_request rq_brace_newline =
     Inr \<lparr>status = 400,
          written = ''Bad request data: '' @ [CHR 0x22] @ ''b'' @ [CHR 0x27] @ ''{''
            @ [CHR 0x5C] @ ''n'' @ [CHR 0x27, CHR 0x22]\<rparr>
   \<and> \<not> sublist (body rq_brace_newline)
         (''Bad request data: '' @ [CHR 0x22] @ ''b'' @ [CHR 0x27] @ ''{''
            @ [CHR 0x5C] @ ''n'' @ [CHR 0x27, CHR 0x22])
   \<and> handle_request (rq_empty_dict\<lparr>handler_f := f_exits\<rparr>) = Inl BaseException"
proof (intro conjI)
  show "handle_request rq_brace_newline =
     Inr \<lparr>status = 400,
          written = ''Bad request data: '' @ [CHR 0x22] @ ''b'' @ [CHR 0x27] @ ''{''
            @ [CHR 0x5C] @ ''n'' @ [CHR 0x27, CHR 0x22]\<rparr>"
    by (simp add: handle_request_def parse_body_def rq_brace_newline_def bytes_repr_def
        escape_byte_def Let_def)
  have "CHR 0x0A \<in> set (body rq_brace_newline)"
    by (simp add: rq_brace_newline_def)
  moreover have "CHR 0x0A \<notin> set (''Bad request data: '' @ [CHR 0x22] @ ''b'' @ [CHR 0x27] @ ''{''
            @ [CHR 0x5C] @ ''n'' @ [CHR 0x27, CHR 0x22])"
    by simp
  ultimately show "\<not> sublist (body rq_brace_newline)
         (''Bad request data: '' @ [CHR 0x22] @ ''b'' @ [CHR 0x27] @ ''{''
            @ [CHR 0x5C] @ ''n'' @ [CHR 0x27, CHR 0x22])"
    using set_mono_sublist by blast
  show "handle_request (rq_empty_dict\<lparr>handler_f := f_exits\<rparr>) = Inl BaseException"
    by (simp add: handle_request_def parse_body_def rq_empty_dict_def f_exits_def)
qed

text \<open>
  The other paths: a handler that returns is answered with status 200 and the text of
  \<^verbatim>\<open>json.dumps\<close>; an empty body, and the body \<^verbatim>\<open>null\<close>, reach the handler as the empty
  dictionary; a non-ASCII byte is written as a hexadecimal escape.
\<close>

lemma handle_request_examples:
  "handle_request rq_empty_dict = Inr \<lparr>status = 200, written = ''{}''\<rparr>
   \<and> handle_request (rq_empty_dict\<lparr>body := [], loads_res := None, handler_f := f_raises\<rparr>) =
       Inr \<lparr>status = 500, written = handler_traceback @ [CHR 0x0A]\<rparr>
   \<and> parse_body (rq_empty_dict\<lparr>body := ''null'', loads_res := Some PNone\<rparr>) = Some PNone
   \<and> bytes_repr [CHR 0xE9, CHR 0x27] = ''b'' @ [CHR 0x22, CHR 0x5C] @ ''xe9'' @ [CHR 0x27, CHR 0x22]"
  by (simp add: handle_request_def parse_body_def rq_empty_dict_def f_echo_def f_raises_def
      format_exc_def bytes_repr_def escape_byte_def hex_digit_def Let_def)

end
